theory Spec2Isabelle
  imports Complex_Main
begin

section \<open>The weekly summary job of \<^verbatim>\<open>apps/web/app/api/cron/weekly_summary/route.ts\<close>\<close>

text \<open>
  The handler \<^verbatim>\<open>POST\<close> checks a header against a secret, fetches every product with
  \<^verbatim>\<open>getProducts\<close>, walks the products, and pushes one promise per email send onto
  \<^verbatim>\<open>emailSendingPromises\<close>, which it awaits with \<^verbatim>\<open>Promise.all\<close> at the end.
  The embedding below follows the source statement by statement: objects are records,
  a property that may read \<^verbatim>\<open>undefined\<close> or \<^verbatim>\<open>null\<close> is an \<open>option\<close>, the loops
  are recursive functions over the arrays, the job's mutable variables are passed as
  state, and a thrown exception is a value.
\<close>

subsection \<open>JavaScript values\<close>

text \<open>
  The values a response stores for a question (the column \<^verbatim>\<open>data\<close> is JSON: strings,
  numbers, lists of strings, and JSON's booleans and null), and the values a property read
  on the parsed object can return besides them: \<open>JSInherited name\<close> is the member
  \<open>name\<close> of \<^verbatim>\<open>Object.prototype\<close>, a function (the prototype object itself for
  \<^verbatim>\<open>__proto__\<close>). \<open>truthy\<close> is JavaScript's conversion to boolean, which
  \<^verbatim>\<open>||\<close> applies to its left operand.
\<close>

datatype js_value =
    JSNull
  | JSBoolean bool
  | JSNumber int
  | JSString string
  | JSArray "string list"
  | JSInherited string

fun truthy :: "js_value \<Rightarrow> bool" where
  "truthy JSNull = False"
| "truthy (JSBoolean b) = b"
| "truthy (JSNumber n) = (n \<noteq> 0)"
| "truthy (JSString s) = (s \<noteq> [])"
| "truthy (JSArray xs) = True"
| "truthy (JSInherited name) = True"

text \<open>
  \<^verbatim>\<open>object[key]\<close> on an object parsed from JSON: the object's own property when it
  has one, else the member of \<^verbatim>\<open>Object.prototype\<close> of that name when there is one,
  else \<^verbatim>\<open>undefined\<close>.
\<close>

definition object_prototype_members :: "string list" where
  "object_prototype_members =
     [''constructor'', ''hasOwnProperty'', ''isPrototypeOf'', ''propertyIsEnumerable'',
      ''toLocaleString'', ''toString'', ''valueOf'', ''__proto__'',
      ''__defineGetter__'', ''__defineSetter__'', ''__lookupGetter__'', ''__lookupSetter__'']"

definition property_read :: "(string \<rightharpoonup> js_value) \<Rightarrow> string \<Rightarrow> js_value option" where
  "property_read object key =
     (case object key of
        Some v \<Rightarrow> Some v
      | None \<Rightarrow> if key \<in> set object_prototype_members then Some (JSInherited key) else None)"

text \<open>
  The numbers \<^verbatim>\<open>Math.round\<close> can return here: an integer, \<^verbatim>\<open>NaN\<close> or
  \<^verbatim>\<open>Infinity\<close>.
\<close>

datatype js_number = JSFinite int | JSNaN | JSInfinity

subsection \<open>Double precision arithmetic\<close>

text \<open>
  JavaScript numbers are IEEE 754 doubles. A positive normal double is written here as a
  pair \<open>(m, e)\<close> of a 53 bit mantissa and an exponent, standing for \<open>m * 2 ^ e\<close>.
  \<open>to_double n d\<close> is the double nearest to the fraction \<open>n / d\<close> (round to nearest,
  ties to even), which is what \<^verbatim>\<open>/\<close> and \<^verbatim>\<open>*\<close> return for the exact quotient and
  product of their operands. The counters of the job are array lengths and their sums;
  they are doubles themselves as long as they stay below \<open>2 ^ 53\<close>, and results stay
  far from the overflow and underflow thresholds of the format.
\<close>

fun bitlen :: "nat \<Rightarrow> nat" where
  "bitlen n = (if n = 0 then 0 else Suc (bitlen (n div 2)))"

declare bitlen.simps [simp del]

definition round_half_even :: "nat \<Rightarrow> nat \<Rightarrow> nat" where
  "round_half_even n d =
     (let q = n div d; r = n mod d
      in if 2 * r < d then q
         else if d < 2 * r then q + 1
         else if even q then q else q + 1)"

definition to_double :: "nat \<Rightarrow> nat \<Rightarrow> nat \<times> int" where
  "to_double n d =
     (let s = 53 + int (bitlen d) - int (bitlen n);
          n' = (if 0 \<le> s then n * 2 ^ nat s else n);
          d' = (if 0 \<le> s then d else d * 2 ^ nat (- s));
          d'' = (if n' < d' * 2 ^ 53 then d' else 2 * d');
          e = (if n' < d' * 2 ^ 53 then - s else 1 - s);
          m = round_half_even n' d''
      in if m = 2 ^ 53 then (2 ^ 52, e + 1) else (m, e))"

text \<open>The rational number a pair stands for.\<close>

definition double_value :: "nat \<times> int \<Rightarrow> rat" where
  "double_value x = of_nat (fst x) * 2 powi (snd x)"

text \<open>\<^verbatim>\<open>a / b\<close> on two positive counters.\<close>

definition js_div :: "nat \<Rightarrow> nat \<Rightarrow> nat \<times> int" where
  "js_div a b = to_double a b"

text \<open>\<^verbatim>\<open>x * 100\<close> on a positive double.\<close>

definition js_mul100 :: "nat \<times> int \<Rightarrow> nat \<times> int" where
  "js_mul100 x =
     (case x of (m, e) \<Rightarrow>
        if 0 \<le> e then to_double (m * 100 * 2 ^ nat e) 1
        else to_double (m * 100) (2 ^ nat (- e)))"

text \<open>
  \<^verbatim>\<open>Math.round(x)\<close> on a positive double: the integer \<open>\<lfloor>x + 1/2\<rfloor>\<close>, ties going up.
\<close>

definition math_round :: "nat \<times> int \<Rightarrow> int" where
  "math_round x =
     (case x of (m, e) \<Rightarrow>
        if 0 \<le> e then int (m * 2 ^ nat e)
        else int ((2 * m + 2 ^ nat (- e)) div 2 ^ (nat (- e) + 1)))"

text \<open>
  \<^verbatim>\<open>Math.round((totalCompletedResponses / totalDisplays) * 100)\<close>: \<^verbatim>\<open>0 / 0\<close> is
  \<^verbatim>\<open>NaN\<close>, a positive number over \<^verbatim>\<open>0\<close> is \<^verbatim>\<open>Infinity\<close>, and both pass through
  the multiplication and \<^verbatim>\<open>Math.round\<close> unchanged.
\<close>

definition completion_rate :: "nat \<Rightarrow> nat \<Rightarrow> js_number" where
  "completion_rate completed shown =
     (if shown = 0 then (if completed = 0 then JSNaN else JSInfinity)
      else if completed = 0 then JSFinite 0
      else JSFinite (math_round (js_mul100 (js_div completed shown))))"

subsection \<open>The rows that \<^verbatim>\<open>getProducts\<close> returns\<close>

text \<open>
  The objects of the Prisma result, with the properties the handler reads. A property
  the handler reads and the query may leave out is an \<open>option\<close>: \<open>None\<close> is
  \<^verbatim>\<open>undefined\<close>. Dates are milliseconds since the epoch.
\<close>

record question =
  question_id :: string
  headline :: string

record response =
  response_id :: string
  createdAt :: int
  updatedAt :: int
  finished :: bool
  data :: "string \<rightharpoonup> js_value"

record display =
  display_status :: "string option"

record survey =
  survey_id :: "string option"
  survey_name :: string
  questions :: "question list"
  status :: string
  responses :: "response list"
  displays :: "display list"

record environment =
  environment_id :: string
  surveys :: "survey list"

record notification_settings =
  weeklySummary :: "(string \<rightharpoonup> bool) option"

record user =
  email :: string
  notificationSettings :: "notification_settings option"

record membership =
  user :: user

record team =
  memberships :: "membership list"

record product =
  product_id :: string
  product_name :: "string option"
  environments :: "environment list"
  team :: team

subsection \<open>The database and \<^verbatim>\<open>getProducts\<close>\<close>

text \<open>
  The tables the query walks, nested the way the query nests them. \<^verbatim>\<open>findMany\<close>
  with \<^verbatim>\<open>select\<close> returns, for each row, an object holding the selected properties
  only, and \<^verbatim>\<open>where\<close> keeps the related rows that satisfy the condition. The
  query selects of a product its \<^verbatim>\<open>id\<close>, \<^verbatim>\<open>environments\<close> and \<^verbatim>\<open>team\<close>, and
  of a survey its \<^verbatim>\<open>name\<close>, \<^verbatim>\<open>questions\<close>, \<^verbatim>\<open>status\<close>, \<^verbatim>\<open>responses\<close> and
  \<^verbatim>\<open>displays\<close>: the product's \<^verbatim>\<open>name\<close> and the survey's \<^verbatim>\<open>id\<close> are not
  selected, so that they read \<^verbatim>\<open>undefined\<close> on the result.
\<close>

record db_survey =
  db_survey_id :: string
  db_survey_name :: string
  db_survey_questions :: "question list"
  db_survey_status :: string
  db_survey_responses :: "response list"
  db_survey_displays :: "display list"

record db_environment =
  db_environment_id :: string
  db_environment_type :: string
  db_environment_surveys :: "db_survey list"

record db_product =
  db_product_id :: string
  db_product_name :: string
  db_product_environments :: "db_environment list"
  db_product_team :: team

text \<open>
  \<^verbatim>\<open>d.setDate(d.getDate() - 7)\<close> moves a date seven calendar days back in the
  server's time zone: 168 hours, or 167 or 169 hours across a clock change. The calendar
  is not the handler's, so the operation is a parameter \<open>week_earlier\<close> of
  \<^verbatim>\<open>getProducts\<close> and of the handler; \<open>utc_week_earlier\<close> is the operation on a
  server that runs on UTC, where a day always has 24 hours.
\<close>

definition utc_week_earlier :: "int \<Rightarrow> int" where
  "utc_week_earlier d = d - 7 * 24 * 60 * 60 * 1000"

definition select_survey :: "int \<Rightarrow> db_survey \<Rightarrow> survey" where
  "select_survey sevenDaysAgo s =
     \<lparr>survey_id = None,
      survey_name = db_survey_name s,
      questions = db_survey_questions s,
      status = db_survey_status s,
      responses = filter (\<lambda>r. sevenDaysAgo \<le> createdAt r) (db_survey_responses s),
      displays = db_survey_displays s\<rparr>"

definition select_environment :: "int \<Rightarrow> db_environment \<Rightarrow> environment" where
  "select_environment sevenDaysAgo e =
     \<lparr>environment_id = db_environment_id e,
      surveys = map (select_survey sevenDaysAgo)
                  (filter (\<lambda>s. db_survey_status s \<noteq> ''draft'') (db_environment_surveys e))\<rparr>"

definition select_product :: "int \<Rightarrow> db_product \<Rightarrow> product" where
  "select_product sevenDaysAgo p =
     \<lparr>product_id = db_product_id p,
      product_name = None,
      environments = map (select_environment sevenDaysAgo)
                       (filter (\<lambda>e. db_environment_type e = ''production'')
                          (db_product_environments p)),
      team = db_product_team p\<rparr>"

definition getProducts :: "(int \<Rightarrow> int) \<Rightarrow> int \<Rightarrow> db_product list \<Rightarrow> product list" where
  "getProducts week_earlier now db =
     (let sevenDaysAgo = week_earlier now
      in map (select_product sevenDaysAgo) db)"

subsection \<open>The handler's own objects\<close>

record response_entry =
  entry_headline :: string
  answer :: js_value

record SurveyData =
  sd_id :: "string option"
  sd_name :: string
  sd_responses :: "response_entry list"

record Insights =
  totalCompletedResponses :: nat
  totalDisplays :: nat
  totalResponses :: nat
  completionRate :: js_number
  numLiveSurvey :: nat

record NotificationResponse =
  environmentId :: string
  currentDate :: int
  lastWeekDate :: int
  productName :: "string option"
  nr_surveys :: "SurveyData list"
  nr_insights :: Insights

text \<open>
  The two send operations of \<^verbatim>\<open>./email\<close>, as the calls the handler makes.
  \<^verbatim>\<open>sendNoLiveSurveyNotificationEmail\<close> is called with one address and with the
  list of members.
\<close>

datatype recipient = ToAddress string | ToMembers "membership list"

datatype email_send =
    sendNoLiveSurveyNotificationEmail recipient product
  | sendWeeklySummaryNotificationEmail "membership list" NotificationResponse

text \<open>
  What the run has done so far: the sends it has started (their promises, in the order
  of \<^verbatim>\<open>emailSendingPromises\<close>), the number of \<^verbatim>\<open>Date\<close> objects it has created from
  the clock, and the number of database queries.
\<close>

record job =
  emailSendingPromises :: "email_send list"
  dates_created :: nat
  queries :: nat

datatype exception = TypeError | SendRejected

datatype http_response = notAuthenticatedResponse | successResponse | uncaught exception

subsection \<open>The handler\<close>

text \<open>
  Lines 46 to 51: the test of the \<^verbatim>\<open>filter\<close> over the memberships. The key of
  the read \<^verbatim>\<open>weeklySummary[product.id]\<close> is the id the database generated for the
  product, never the name of a member of \<^verbatim>\<open>Object.prototype\<close>, so the read is a
  lookup among the map's own entries.
\<close>

definition notification_enabled :: "string \<Rightarrow> membership \<Rightarrow> bool" where
  "notification_enabled pid member =
     (case notificationSettings (user member) of
        None \<Rightarrow> False
      | Some settings \<Rightarrow>
          (case weeklySummary settings of
             None \<Rightarrow> False
           | Some flags \<Rightarrow> (case flags pid of None \<Rightarrow> False | Some flag \<Rightarrow> flag)))"

definition teamMembersWithNotificationEnabled :: "product \<Rightarrow> membership list" where
  "teamMembersWithNotificationEnabled p =
     filter (notification_enabled (product_id p)) (memberships (team p))"

text \<open>Line 78: \<^verbatim>\<open>response.data[question.id] || null\<close>.\<close>

definition or_null :: "js_value option \<Rightarrow> js_value" where
  "or_null v = (case v of None \<Rightarrow> JSNull | Some x \<Rightarrow> if truthy x then x else JSNull)"

text \<open>Lines 76 to 80 and 75 to 81: the two loops that fill \<^verbatim>\<open>surveyData.responses\<close>.\<close>

fun question_loop :: "response \<Rightarrow> question list \<Rightarrow> response_entry list \<Rightarrow> response_entry list" where
  "question_loop r [] acc = acc"
| "question_loop r (q # qs) acc =
     question_loop r qs
       (acc @ [\<lparr>entry_headline = headline q,
                answer = or_null (property_read (data r) (question_id q))\<rparr>])"

fun response_loop :: "question list \<Rightarrow> response list \<Rightarrow> response_entry list \<Rightarrow> response_entry list" where
  "response_loop qs [] acc = acc"
| "response_loop qs (r # rs) acc = response_loop qs rs (question_loop r qs acc)"

definition surveyData :: "survey \<Rightarrow> SurveyData" where
  "surveyData s =
     \<lparr>sd_id = survey_id s,
      sd_name = survey_name s,
      sd_responses = response_loop (questions s) (responses s) []\<rparr>"

text \<open>Lines 84 to 90: the update of the insights by one survey.\<close>

definition add_survey :: "Insights \<Rightarrow> survey \<Rightarrow> Insights" where
  "add_survey insights s =
     (let i1 = (if status s = ''live''
                then insights\<lparr>numLiveSurvey := numLiveSurvey insights + 1\<rparr>
                else insights);
          i2 = i1\<lparr>totalCompletedResponses :=
                    totalCompletedResponses i1 + length (filter finished (responses s))\<rparr>;
          i3 = i2\<lparr>totalDisplays := totalDisplays i2 + length (displays s)\<rparr>;
          i4 = i3\<lparr>totalResponses := totalResponses i3 + length (responses s)\<rparr>
      in i4\<lparr>completionRate :=
                completion_rate (totalCompletedResponses i4) (totalDisplays i4)\<rparr>)"

definition initial_insights :: Insights where
  "initial_insights =
     \<lparr>totalCompletedResponses = 0, totalDisplays = 0, totalResponses = 0,
      completionRate = JSFinite 0, numLiveSurvey = 0\<rparr>"

text \<open>Lines 68 to 91: the loop over the surveys of the environment.\<close>

fun survey_loop :: "survey list \<Rightarrow> SurveyData list \<times> Insights \<Rightarrow> SurveyData list \<times> Insights" where
  "survey_loop [] acc = acc"
| "survey_loop (s # ss) (collected, insights) =
     survey_loop ss (collected @ [surveyData s], add_survey insights s)"

text \<open>
  Lines 44 to 116: the body of the loop over the products. \<open>clock n\<close> is the time that
  the \<open>n\<close>-th \<^verbatim>\<open>new Date()\<close> of the run reads. \<^verbatim>\<open>product.environments[0]\<close> is
  \<^verbatim>\<open>undefined\<close> on an empty array, and reading \<^verbatim>\<open>environment.surveys\<close> then throws
  a \<^verbatim>\<open>TypeError\<close>; the sends started before stay started.
\<close>

definition product_step :: "(int \<Rightarrow> int) \<Rightarrow> (nat \<Rightarrow> int) \<Rightarrow> product \<Rightarrow> job \<Rightarrow> exception option \<times> job" where
  "product_step week_earlier clock p j =
     (let members = teamMembersWithNotificationEnabled p
      in if length members = 0 then (None, j)
         else (case environments p of
                 [] \<Rightarrow> (Some TypeError, j)
               | environment # _ \<Rightarrow>
                   (let (collected, insights) =
                          survey_loop (surveys environment) ([], initial_insights)
                    in if totalCompletedResponses insights = 0
                       then (None, j\<lparr>emailSendingPromises :=
                               emailSendingPromises j
                               @ map (\<lambda>teamMember.
                                       sendNoLiveSurveyNotificationEmail
                                         (ToAddress (email (user teamMember))) p) members
                               @ [sendNoLiveSurveyNotificationEmail (ToMembers members) p]\<rparr>)
                       else (let lastWeekDate = week_earlier (clock (dates_created j));
                                 notificationResponse =
                                   \<lparr>environmentId = environment_id environment,
                                    currentDate = clock (dates_created j + 1),
                                    lastWeekDate = lastWeekDate,
                                    productName = product_name p,
                                    nr_surveys = collected,
                                    nr_insights = insights\<rparr>
                             in (None, j\<lparr>emailSendingPromises :=
                                    emailSendingPromises j
                                    @ [sendWeeklySummaryNotificationEmail members
                                         notificationResponse],
                                  dates_created := dates_created j + 2\<rparr>)))))"

fun product_loop :: "(int \<Rightarrow> int) \<Rightarrow> (nat \<Rightarrow> int) \<Rightarrow> product list \<Rightarrow> job \<Rightarrow> exception option \<times> job" where
  "product_loop week_earlier clock [] j = (None, j)"
| "product_loop week_earlier clock (p # ps) j =
     (case product_step week_earlier clock p j of
        (Some e, j') \<Rightarrow> (Some e, j')
      | (None, j') \<Rightarrow> product_loop week_earlier clock ps j')"

text \<open>
  Line 33: \<^verbatim>\<open>headers().get("x-api-key") !== CRON_SECRET\<close>. The header reads
  \<^verbatim>\<open>null\<close> when the request has none, the constant is \<^verbatim>\<open>undefined\<close> when the
  environment sets none, and \<^verbatim>\<open>null !== undefined\<close> holds.
\<close>

definition strict_not_equal :: "string option \<Rightarrow> string option \<Rightarrow> bool" where
  "strict_not_equal header secret =
     (case (header, secret) of (Some h, Some s) \<Rightarrow> h \<noteq> s | _ \<Rightarrow> True)"

definition idle :: job where
  "idle = \<lparr>emailSendingPromises = [], dates_created = 0, queries = 0\<rparr>"

text \<open>
  Lines 31 to 121. \<open>rejects\<close> tells which sends end in a rejected promise:
  \<^verbatim>\<open>Promise.all\<close> rejects as soon as one of its promises does, and the handler has no
  \<^verbatim>\<open>catch\<close>. The first \<^verbatim>\<open>Date\<close> of a run is the one \<^verbatim>\<open>getProducts\<close> creates.
\<close>

definition POST :: "string option \<Rightarrow> string option \<Rightarrow> (int \<Rightarrow> int) \<Rightarrow> (nat \<Rightarrow> int)
    \<Rightarrow> (email_send \<Rightarrow> bool)
    \<Rightarrow> db_product list \<Rightarrow> http_response \<times> job" where
  "POST x_api_key CRON_SECRET week_earlier clock rejects db =
     (if strict_not_equal x_api_key CRON_SECRET then (notAuthenticatedResponse, idle)
      else (let products = getProducts week_earlier (clock 0) db;
                started = \<lparr>emailSendingPromises = [], dates_created = 1, queries = 1\<rparr>
            in case product_loop week_earlier clock products started of
                 (Some e, j) \<Rightarrow> (uncaught e, j)
               | (None, j) \<Rightarrow>
                   if list_ex rejects (emailSendingPromises j)
                   then (uncaught SendRejected, j)
                   else (successResponse, j)))"

subsection \<open>A small database\<close>

text \<open>
  A product named Acme with four team members and the given environments. Alice has the
  weekly summary of the product enabled; Bob has it enabled for another product only,
  Carol has no notification settings, and Dave has settings without a weekly summary
  map. A poll has one question; \<open>weekly_poll c d\<close> was shown \<open>d\<close> times and holds
  \<open>c\<close> finished responses of the last days.
\<close>

definition alice :: membership where
  "alice = \<lparr>user = \<lparr>email = ''alice@example.com'',
     notificationSettings = Some \<lparr>weeklySummary = Some [''p1'' \<mapsto> True]\<rparr>\<rparr>\<rparr>"

definition bob :: membership where
  "bob = \<lparr>user = \<lparr>email = ''bob@example.com'',
     notificationSettings = Some \<lparr>weeklySummary = Some [''p2'' \<mapsto> True]\<rparr>\<rparr>\<rparr>"

definition carol :: membership where
  "carol = \<lparr>user = \<lparr>email = ''carol@example.com'', notificationSettings = None\<rparr>\<rparr>"

definition dave :: membership where
  "dave = \<lparr>user = \<lparr>email = ''dave@example.com'',
     notificationSettings = Some \<lparr>weeklySummary = None\<rparr>\<rparr>\<rparr>"

definition q1 :: question where
  "q1 = \<lparr>question_id = ''q1'', headline = ''How was your week?''\<rparr>"

definition answered :: response where
  "answered = \<lparr>response_id = ''r1'', createdAt = 1699900000000, updatedAt = 1699900000000,
     finished = True, data = [''q1'' \<mapsto> JSString ''Fine'']\<rparr>"

definition left_blank :: response where
  "left_blank = \<lparr>response_id = ''r2'', createdAt = 1699900000000, updatedAt = 1699900000000,
     finished = False, data = [''q1'' \<mapsto> JSString '''']\<rparr>"

definition seen :: display where
  "seen = \<lparr>display_status = None\<rparr>"

definition weekly_poll :: "nat \<Rightarrow> nat \<Rightarrow> db_survey" where
  "weekly_poll c d =
     \<lparr>db_survey_id = ''s1'', db_survey_name = ''Weekly poll'', db_survey_questions = [q1],
      db_survey_status = ''inProgress'', db_survey_responses = replicate c answered,
      db_survey_displays = replicate d seen\<rparr>"

definition acme_with :: "db_environment list \<Rightarrow> db_product" where
  "acme_with envs =
     \<lparr>db_product_id = ''p1'', db_product_name = ''Acme'', db_product_environments = envs,
      db_product_team = \<lparr>memberships = [alice, bob, carol, dave]\<rparr>\<rparr>"

definition production :: "db_survey list \<Rightarrow> db_environment" where
  "production polls =
     \<lparr>db_environment_id = ''e1'', db_environment_type = ''production'',
      db_environment_surveys = polls\<rparr>"

definition development :: db_environment where
  "development =
     \<lparr>db_environment_id = ''e0'', db_environment_type = ''development'',
      db_environment_surveys = []\<rparr>"

definition acme :: "db_survey list \<Rightarrow> db_product" where
  "acme polls = acme_with [production polls]"

text \<open>The fetched poll and the fetched product, as \<^verbatim>\<open>getProducts\<close> returns them.\<close>

definition fetched_poll :: "nat \<Rightarrow> nat \<Rightarrow> survey" where
  "fetched_poll c d =
     \<lparr>survey_id = None, survey_name = ''Weekly poll'', questions = [q1],
      status = ''inProgress'', responses = replicate c answered,
      displays = replicate d seen\<rparr>"

definition fetched_acme :: "environment list \<Rightarrow> product" where
  "fetched_acme envs =
     \<lparr>product_id = ''p1'', product_name = None, environments = envs,
      team = \<lparr>memberships = [alice, bob, carol, dave]\<rparr>\<rparr>"

definition wall_clock :: "nat \<Rightarrow> int" where
  "wall_clock n = 1700000000000 + int n"

text \<open>
  A poll whose only response left the question blank, and a product nobody follows.
\<close>

definition blank_poll :: survey where
  "blank_poll =
     \<lparr>survey_id = None, survey_name = ''Weekly poll'', questions = [q1],
      status = ''inProgress'', responses = [left_blank], displays = [seen]\<rparr>"

definition quiet :: db_product where
  "quiet =
     \<lparr>db_product_id = ''p3'', db_product_name = ''Quiet'', db_product_environments = [],
      db_product_team = \<lparr>memberships = [bob, carol]\<rparr>\<rparr>"


text \<open>
  A form with three questions, the last of which has the id \<^verbatim>\<open>constructor\<close>, answered
  twice; a second product, Globex, whose weekly summary only Bob follows; and a mail
  system that rejects every send addressed to a single address.
\<close>

definition q2 :: question where
  "q2 = \<lparr>question_id = ''q2'', headline = ''Anything else?''\<rparr>"

definition q3 :: question where
  "q3 = \<lparr>question_id = ''constructor'', headline = ''Who built it?''\<rparr>"

definition feedback_form :: survey where
  "feedback_form =
     \<lparr>survey_id = None, survey_name = ''Feedback'', questions = [q1, q2, q3],
      status = ''inProgress'', responses = [answered, left_blank], displays = [seen, seen]\<rparr>"

definition globex :: "db_survey list \<Rightarrow> db_product" where
  "globex polls =
     \<lparr>db_product_id = ''p2'', db_product_name = ''Globex'',
      db_product_environments =
        [\<lparr>db_environment_id = ''e2'', db_environment_type = ''production'',
          db_environment_surveys = polls\<rparr>],
      db_product_team = \<lparr>memberships = [alice, bob]\<rparr>\<rparr>"

definition fetched_globex :: "environment list \<Rightarrow> product" where
  "fetched_globex envs =
     \<lparr>product_id = ''p2'', product_name = None, environments = envs,
      team = \<lparr>memberships = [alice, bob]\<rparr>\<rparr>"

fun address_sends_fail :: "email_send \<Rightarrow> bool" where
  "address_sends_fail (sendNoLiveSurveyNotificationEmail (ToAddress a) p) = True"
| "address_sends_fail (sendNoLiveSurveyNotificationEmail (ToMembers ms) p) = False"
| "address_sends_fail (sendWeeklySummaryNotificationEmail ms payload) = False"

text \<open>
  A database of two products: Acme in a week without a finished response, Globex in a
  week with one; and the two as \<^verbatim>\<open>getProducts\<close> returns them.
\<close>

definition two_products :: "db_product list" where
  "two_products = [acme [weekly_poll 0 3], globex [weekly_poll (Suc 0) 2]]"

definition acme_quiet_week :: product where
  "acme_quiet_week = fetched_acme [\<lparr>environment_id = ''e1'', surveys = [fetched_poll 0 3]\<rparr>]"

definition globex_busy_week :: product where
  "globex_busy_week =
     fetched_globex [\<lparr>environment_id = ''e2'', surveys = [fetched_poll (Suc 0) 2]\<rparr>]"

section \<open>Lemmas about the loops\<close>

lemma strict_not_equal_iff:
  "strict_not_equal header secret \<longleftrightarrow> \<not> (\<exists>v. header = Some v \<and> secret = Some v)"
  by (cases header; cases secret) (auto simp: strict_not_equal_def)

subsection \<open>The loop over the products\<close>

lemma product_step_skip:
  "teamMembersWithNotificationEnabled p = [] \<Longrightarrow> product_step week_earlier clock p j = (None, j)"
  by (simp add: product_step_def)

lemma product_step_no_environment:
  "teamMembersWithNotificationEnabled p \<noteq> [] \<Longrightarrow> environments p = []
   \<Longrightarrow> product_step week_earlier clock p j = (Some TypeError, j)"
  by (simp add: product_step_def)

lemma product_step_exception:
  assumes "product_step week_earlier clock p j = (Some e, j')"
  shows "e = TypeError \<and> teamMembersWithNotificationEnabled p \<noteq> [] \<and> environments p = []"
  using assms
  by (auto simp: product_step_def Let_def split: if_splits list.splits prod.splits)

lemma product_loop_append:
  "product_loop week_earlier clock (ps @ qs) j =
     (case product_loop week_earlier clock ps j of
        (Some e, j') \<Rightarrow> (Some e, j')
      | (None, j') \<Rightarrow> product_loop week_earlier clock qs j')"
proof (induction ps arbitrary: j)
  case Nil
  show ?case by simp
next
  case (Cons p ps)
  show ?case
  proof (cases "product_step week_earlier clock p j")
    case (Pair r j1)
    then show ?thesis
      by (cases r) (simp_all add: Cons.IH)
  qed
qed

lemma product_loop_exception:
  "product_loop week_earlier clock ps j = (Some e, j') \<Longrightarrow> e = TypeError"
proof (induction ps arbitrary: j)
  case Nil
  then show ?case by simp
next
  case (Cons p ps)
  obtain r j1 where step: "product_step week_earlier clock p j = (r, j1)"
    by (cases "product_step week_earlier clock p j")
  show ?case
  proof (cases r)
    case None
    with step Cons.prems have "product_loop week_earlier clock ps j1 = (Some e, j')" by simp
    then show ?thesis by (rule Cons.IH)
  next
    case (Some x)
    with step Cons.prems have "x = e" by simp
    with step Some show ?thesis using product_step_exception by blast
  qed
qed

lemma product_loop_completes:
  "product_loop week_earlier clock ps j = (None, j') \<Longrightarrow> p \<in> set ps
   \<Longrightarrow> teamMembersWithNotificationEnabled p \<noteq> [] \<Longrightarrow> environments p \<noteq> []"
proof (induction ps arbitrary: j)
  case Nil
  then show ?case by simp
next
  case (Cons q qs)
  obtain r j1 where step: "product_step week_earlier clock q j = (r, j1)"
    by (cases "product_step week_earlier clock q j")
  with Cons.prems(1) have r: "r = None" and rest: "product_loop week_earlier clock qs j1 = (None, j')"
    by (cases r; simp)+
  show ?case
  proof (cases "p = q")
    case True
    show ?thesis
    proof
      assume "environments p = []"
      with True Cons.prems(3) have "product_step week_earlier clock q j = (Some TypeError, j)"
        by (simp add: product_step_no_environment)
      with step r show False by simp
    qed
  next
    case False
    with Cons.prems(2) have "p \<in> set qs" by simp
    with rest Cons.prems(3) show ?thesis by (simp add: Cons.IH)
  qed
qed

lemma POST_authenticated:
  assumes "\<not> strict_not_equal x_api_key CRON_SECRET"
  shows "POST x_api_key CRON_SECRET week_earlier clock rejects db =
    (case product_loop week_earlier clock (getProducts week_earlier (clock 0) db)
            \<lparr>emailSendingPromises = [], dates_created = 1, queries = 1\<rparr> of
       (Some e, j) \<Rightarrow> (uncaught e, j)
     | (None, j) \<Rightarrow>
         if list_ex rejects (emailSendingPromises j) then (uncaught SendRejected, j)
         else (successResponse, j))"
  using assms by (simp add: POST_def)

lemma POST_success_loop:
  assumes "fst (POST x_api_key CRON_SECRET week_earlier clock rejects db) = successResponse"
  shows "\<exists>j. product_loop week_earlier clock (getProducts week_earlier (clock 0) db)
            \<lparr>emailSendingPromises = [], dates_created = 1, queries = 1\<rparr> = (None, j)
          \<and> \<not> list_ex rejects (emailSendingPromises j)
          \<and> snd (POST x_api_key CRON_SECRET week_earlier clock rejects db) = j"
  using assms
  by (auto simp: POST_def Let_def split: if_splits prod.splits option.splits)

lemma environments_select_product:
  "environments (select_product t dp) \<noteq> [] \<longleftrightarrow>
     (\<exists>e \<in> set (db_product_environments dp). db_environment_type e = ''production'')"
  by (auto simp: select_product_def filter_empty_conv)

lemma recipients_select_product:
  "teamMembersWithNotificationEnabled (select_product t dp) =
     filter (notification_enabled (db_product_id dp)) (memberships (db_product_team dp))"
  by (simp add: teamMembersWithNotificationEnabled_def select_product_def)

subsection \<open>The loop over the surveys\<close>

lemma add_survey_fields:
  "totalCompletedResponses (add_survey i s) =
     totalCompletedResponses i + length (filter finished (responses s))"
  "totalDisplays (add_survey i s) = totalDisplays i + length (displays s)"
  "totalResponses (add_survey i s) = totalResponses i + length (responses s)"
  "numLiveSurvey (add_survey i s) = numLiveSurvey i + (if status s = ''live'' then 1 else 0)"
  "completionRate (add_survey i s) =
     completion_rate (totalCompletedResponses i + length (filter finished (responses s)))
       (totalDisplays i + length (displays s))"
  by (simp_all add: add_survey_def Let_def)

lemma survey_loop_collected:
  "fst (survey_loop ss (collected, i)) = collected @ map surveyData ss"
  by (induction ss arbitrary: collected i) simp_all

lemma survey_loop_completed:
  "totalCompletedResponses (snd (survey_loop ss (collected, i))) =
     totalCompletedResponses i + (\<Sum>s\<leftarrow>ss. length (filter finished (responses s)))"
  by (induction ss arbitrary: collected i) (simp_all add: add_survey_fields)

lemma survey_loop_displays:
  "totalDisplays (snd (survey_loop ss (collected, i))) =
     totalDisplays i + (\<Sum>s\<leftarrow>ss. length (displays s))"
  by (induction ss arbitrary: collected i) (simp_all add: add_survey_fields)

lemma survey_loop_responses:
  "totalResponses (snd (survey_loop ss (collected, i))) =
     totalResponses i + (\<Sum>s\<leftarrow>ss. length (responses s))"
  by (induction ss arbitrary: collected i) (simp_all add: add_survey_fields)

lemma survey_loop_live:
  "numLiveSurvey (snd (survey_loop ss (collected, i))) =
     numLiveSurvey i + length (filter (\<lambda>s. status s = ''live'') ss)"
  by (induction ss arbitrary: collected i) (simp_all add: add_survey_fields)

lemma survey_loop_snoc:
  "survey_loop (ss @ [s]) acc =
     (fst (survey_loop ss acc) @ [surveyData s], add_survey (snd (survey_loop ss acc)) s)"
proof (induction ss arbitrary: acc)
  case Nil
  show ?case by (cases acc) simp
next
  case (Cons a ss)
  show ?case by (cases acc) (simp add: Cons.IH)
qed

lemma survey_loop_rate:
  assumes "ss \<noteq> []"
  shows "completionRate (snd (survey_loop ss (collected, i))) =
     completion_rate
       (totalCompletedResponses i + (\<Sum>s\<leftarrow>ss. length (filter finished (responses s))))
       (totalDisplays i + (\<Sum>s\<leftarrow>ss. length (displays s)))"
proof -
  from assms obtain ts t where ss: "ss = ts @ [t]"
    by (metis rev_exhaust)
  obtain c1 i1 where before: "survey_loop ts (collected, i) = (c1, i1)"
    by (cases "survey_loop ts (collected, i)")
  have "totalCompletedResponses i1 =
      totalCompletedResponses i + (\<Sum>s\<leftarrow>ts. length (filter finished (responses s)))"
    using survey_loop_completed [of ts collected i] before by simp
  moreover have "totalDisplays i1 = totalDisplays i + (\<Sum>s\<leftarrow>ts. length (displays s))"
    using survey_loop_displays [of ts collected i] before by simp
  ultimately show ?thesis
    by (simp add: ss survey_loop_snoc before add_survey_fields add.assoc)
qed

subsection \<open>The small database, evaluated\<close>

lemma enabled_members [simp]:
  "notification_enabled ''p1'' alice"
  "\<not> notification_enabled ''p1'' bob"
  "\<not> notification_enabled ''p1'' carol"
  "\<not> notification_enabled ''p1'' dave"
  by (simp_all add: notification_enabled_def alice_def bob_def carol_def dave_def)

lemma select_weekly_poll:
  "select_survey (utc_week_earlier (wall_clock 0)) (weekly_poll c d) = fetched_poll c d"
  by (simp add: select_survey_def weekly_poll_def fetched_poll_def wall_clock_def
      utc_week_earlier_def answered_def)

lemma weekly_poll_status:
  "db_survey_status (weekly_poll c d) = ''inProgress''"
  by (simp add: weekly_poll_def)

lemma select_acme:
  "select_product (utc_week_earlier (wall_clock 0)) (acme [weekly_poll c d])
     = fetched_acme [\<lparr>environment_id = ''e1'', surveys = [fetched_poll c d]\<rparr>]"
  "select_product (utc_week_earlier (wall_clock 0)) (acme_with [development]) = fetched_acme []"
  by (simp_all add: select_product_def select_environment_def acme_def acme_with_def
      production_def development_def fetched_acme_def select_weekly_poll weekly_poll_status)

lemma fetched_acme_recipients:
  "teamMembersWithNotificationEnabled (fetched_acme envs) = [alice]"
  by (simp add: teamMembersWithNotificationEnabled_def fetched_acme_def)

lemma fetched_poll_data:
  "surveyData (fetched_poll (Suc 0) d) =
     \<lparr>sd_id = None, sd_name = ''Weekly poll'',
      sd_responses = [\<lparr>entry_headline = ''How was your week?'', answer = JSString ''Fine''\<rparr>]\<rparr>"
  "surveyData (fetched_poll 0 d) = \<lparr>sd_id = None, sd_name = ''Weekly poll'', sd_responses = []\<rparr>"
  by (simp_all add: surveyData_def fetched_poll_def q1_def answered_def or_null_def
      property_read_def)

lemmas double_defs = completion_rate_def js_div_def js_mul100_def to_double_def
  math_round_def round_half_even_def Let_def bitlen.simps

lemma completion_rate_examples:
  "completion_rate 1 2 = JSFinite 50"
  "completion_rate 4 10 = JSFinite 40"
  "completion_rate 10 20 = JSFinite 50"
  "completion_rate 23 40 = JSFinite 57"
  by (simp_all add: double_defs)

lemma fetched_poll_insights:
  "add_survey initial_insights (fetched_poll c d) =
     \<lparr>totalCompletedResponses = c, totalDisplays = d, totalResponses = c,
      completionRate = completion_rate c d, numLiveSurvey = 0\<rparr>"
  by (simp add: add_survey_def initial_insights_def fetched_poll_def answered_def Let_def)

lemma getProducts_acme:
  "getProducts utc_week_earlier (wall_clock 0) [acme [weekly_poll c d]]
     = [fetched_acme [\<lparr>environment_id = ''e1'', surveys = [fetched_poll c d]\<rparr>]]"
  by (simp add: getProducts_def Let_def select_acme)

lemma step_acme_no_responses:
  "product_step week_earlier clock (fetched_acme [\<lparr>environment_id = ''e1'', surveys = [fetched_poll 0 d]\<rparr>]) j
     = (None, j\<lparr>emailSendingPromises := emailSendingPromises j
          @ [sendNoLiveSurveyNotificationEmail (ToAddress ''alice@example.com'')
               (fetched_acme [\<lparr>environment_id = ''e1'', surveys = [fetched_poll 0 d]\<rparr>]),
             sendNoLiveSurveyNotificationEmail (ToMembers [alice])
               (fetched_acme [\<lparr>environment_id = ''e1'', surveys = [fetched_poll 0 d]\<rparr>])]\<rparr>)"
proof -
  have env: "environments (fetched_acme [\<lparr>environment_id = ''e1'', surveys = [fetched_poll 0 d]\<rparr>])
      = [\<lparr>environment_id = ''e1'', surveys = [fetched_poll 0 d]\<rparr>]"
    by (simp add: fetched_acme_def)
  have mail: "email (user alice) = ''alice@example.com''"
    by (simp add: alice_def)
  show ?thesis
    by (simp add: product_step_def fetched_acme_recipients env fetched_poll_insights
        fetched_poll_data mail)
qed

lemma step_acme_summary:
  "product_step week_earlier clock
       (fetched_acme [\<lparr>environment_id = ''e1'', surveys = [fetched_poll (Suc 0) d]\<rparr>]) j
     = (None, j\<lparr>emailSendingPromises := emailSendingPromises j
          @ [sendWeeklySummaryNotificationEmail [alice]
               \<lparr>environmentId = ''e1'',
                currentDate = clock (dates_created j + 1),
                lastWeekDate = week_earlier (clock (dates_created j)),
                productName = None,
                nr_surveys =
                  [\<lparr>sd_id = None, sd_name = ''Weekly poll'',
                    sd_responses = [\<lparr>entry_headline = ''How was your week?'',
                                     answer = JSString ''Fine''\<rparr>]\<rparr>],
                nr_insights =
                  \<lparr>totalCompletedResponses = 1, totalDisplays = d, totalResponses = 1,
                   completionRate = completion_rate 1 d, numLiveSurvey = 0\<rparr>\<rparr>],
          dates_created := dates_created j + 2\<rparr>)"
proof -
  have env: "environments
      (fetched_acme [\<lparr>environment_id = ''e1'', surveys = [fetched_poll (Suc 0) d]\<rparr>])
      = [\<lparr>environment_id = ''e1'', surveys = [fetched_poll (Suc 0) d]\<rparr>]"
    by (simp add: fetched_acme_def)
  have name: "product_name
      (fetched_acme [\<lparr>environment_id = ''e1'', surveys = [fetched_poll (Suc 0) d]\<rparr>]) = None"
    by (simp add: fetched_acme_def)
  show ?thesis
    by (simp add: product_step_def fetched_acme_recipients env name fetched_poll_insights
        fetched_poll_data)
qed

lemma POST_acme_no_responses:
  "POST (Some ''s3cret'') (Some ''s3cret'') utc_week_earlier wall_clock rejects [acme [weekly_poll 0 d]] =
     (if rejects (sendNoLiveSurveyNotificationEmail (ToAddress ''alice@example.com'')
               (fetched_acme [\<lparr>environment_id = ''e1'', surveys = [fetched_poll 0 d]\<rparr>]))
        \<or> rejects (sendNoLiveSurveyNotificationEmail (ToMembers [alice])
               (fetched_acme [\<lparr>environment_id = ''e1'', surveys = [fetched_poll 0 d]\<rparr>]))
      then uncaught SendRejected else successResponse,
      \<lparr>emailSendingPromises =
         [sendNoLiveSurveyNotificationEmail (ToAddress ''alice@example.com'')
            (fetched_acme [\<lparr>environment_id = ''e1'', surveys = [fetched_poll 0 d]\<rparr>]),
          sendNoLiveSurveyNotificationEmail (ToMembers [alice])
            (fetched_acme [\<lparr>environment_id = ''e1'', surveys = [fetched_poll 0 d]\<rparr>])],
       dates_created = 1, queries = 1\<rparr>)"
  by (simp add: POST_def strict_not_equal_def getProducts_acme step_acme_no_responses)

lemma POST_acme_summary:
  "POST (Some ''s3cret'') (Some ''s3cret'') utc_week_earlier wall_clock (\<lambda>e. False) [acme [weekly_poll (Suc 0) 2]] =
     (successResponse,
      \<lparr>emailSendingPromises =
         [sendWeeklySummaryNotificationEmail [alice]
            \<lparr>environmentId = ''e1'',
             currentDate = 1700000000002,
             lastWeekDate = 1699395200001,
             productName = None,
             nr_surveys =
               [\<lparr>sd_id = None, sd_name = ''Weekly poll'',
                 sd_responses = [\<lparr>entry_headline = ''How was your week?'',
                                  answer = JSString ''Fine''\<rparr>]\<rparr>],
             nr_insights =
               \<lparr>totalCompletedResponses = 1, totalDisplays = 2, totalResponses = 1,
                completionRate = JSFinite 50, numLiveSurvey = 0\<rparr>\<rparr>],
       dates_created = 3, queries = 1\<rparr>)"
proof -
  have times: "wall_clock (Suc (Suc 0)) = 1700000000002"
    "utc_week_earlier (wall_clock (Suc 0)) = 1699395200001"
    by (simp_all add: wall_clock_def utc_week_earlier_def)
  have rate: "completion_rate (Suc 0) 2 = JSFinite 50"
    using completion_rate_examples(1) by simp
  show ?thesis
    by (simp add: POST_def strict_not_equal_def getProducts_acme step_acme_summary
        times rate)
qed

subsection \<open>The loops that fill a survey record\<close>

lemma question_loop_map:
  "question_loop r qs acc =
     acc @ map (\<lambda>q. \<lparr>entry_headline = headline q, answer = or_null (property_read (data r) (question_id q))\<rparr>) qs"
  by (induction qs arbitrary: acc) simp_all

lemma response_loop_concat:
  "response_loop qs rs acc =
     acc @ concat (map (\<lambda>r. map (\<lambda>q. \<lparr>entry_headline = headline q,
                                        answer = or_null (property_read (data r) (question_id q))\<rparr>) qs) rs)"
  by (induction rs arbitrary: acc) (simp_all add: question_loop_map)

lemma length_response_loop:
  "length (response_loop qs rs acc) = length acc + length rs * length qs"
  by (induction rs arbitrary: acc) (simp_all add: question_loop_map)

lemma or_null_cases:
  "or_null v =
     (case v of
        None \<Rightarrow> JSNull
      | Some x \<Rightarrow>
          if x = JSNull \<or> x = JSBoolean False \<or> x = JSNumber 0 \<or> x = JSString ''''
          then JSNull else x)"
proof (cases v)
  case None
  then show ?thesis by (simp add: or_null_def)
next
  case (Some x)
  then show ?thesis by (cases x) (simp_all add: or_null_def)
qed

subsection \<open>Rounding to a double\<close>

lemma bitlen_upper: "n < 2 ^ bitlen n"
proof (induction n rule: bitlen.induct)
  case (1 n)
  show ?case
  proof (cases "n = 0")
    case True
    then show ?thesis by (simp add: bitlen.simps)
  next
    case False
    with "1" have "n div 2 < 2 ^ bitlen (n div 2)" by simp
    then have "n < 2 * 2 ^ bitlen (n div 2)" by linarith
    with False show ?thesis by (simp add: bitlen.simps [of n])
  qed
qed

lemma bitlen_lower: "0 < n \<Longrightarrow> 2 ^ bitlen n \<le> 2 * n"
proof (induction n rule: bitlen.induct)
  case (1 n)
  then have pos: "n \<noteq> 0" by simp
  show ?case
  proof (cases "n div 2 = 0")
    case True
    with pos have "n = 1" by linarith
    then show ?thesis by (simp add: bitlen.simps)
  next
    case False
    with "1.IH" pos have "2 ^ bitlen (n div 2) \<le> 2 * (n div 2)" by simp
    then have "2 * 2 ^ bitlen (n div 2) \<le> 2 * n" by linarith
    with pos show ?thesis by (simp add: bitlen.simps [of n])
  qed
qed

lemma round_half_even_error:
  assumes "0 < d"
  shows "\<bar>2 * int d * int (round_half_even n d) - 2 * int n\<bar> \<le> int d"
proof -
  define q where "q = n div d"
  define r where "r = n mod d"
  have n: "int n = int q * int d + int r"
    unfolding q_def r_def by (metis div_mult_mod_eq of_nat_add of_nat_mult)
  have r: "r < d" unfolding r_def using assms by simp
  consider "2 * r < d" | "d < 2 * r" | "2 * r = d" by linarith
  then show ?thesis
  proof cases
    case 1
    then have "round_half_even n d = q"
      by (simp add: round_half_even_def Let_def q_def r_def)
    with 1 n show ?thesis by (simp add: algebra_simps)
  next
    case 2
    then have "round_half_even n d = q + 1"
      by (simp add: round_half_even_def Let_def q_def r_def)
    with 2 r n show ?thesis by (simp add: algebra_simps)
  next
    case 3
    then have "round_half_even n d = q \<or> round_half_even n d = q + 1"
      by (simp add: round_half_even_def Let_def q_def r_def)
    with 3 r n show ?thesis by (auto simp: algebra_simps)
  qed
qed

lemma round_half_even_error_rat:
  assumes "0 < d"
  shows "\<bar>of_nat (round_half_even n d) - (of_nat n / of_nat d :: rat)\<bar> \<le> 1 / 2"
proof -
  have d: "(0::rat) < of_nat d" using assms by simp
  have "\<bar>2 * int d * int (round_half_even n d) - 2 * int n\<bar> \<le> int d"
    using assms by (rule round_half_even_error)
  then have "(of_int \<bar>2 * int d * int (round_half_even n d) - 2 * int n\<bar> :: rat) \<le> of_int (int d)"
    by (simp only: of_int_le_iff)
  then have "\<bar>2 * of_nat d * of_nat (round_half_even n d) - 2 * (of_nat n :: rat)\<bar> \<le> of_nat d"
    by simp
  moreover have "2 * of_nat d * of_nat (round_half_even n d) - 2 * (of_nat n :: rat)
      = (2 * of_nat d) * (of_nat (round_half_even n d) - of_nat n / of_nat d)"
    using d by (simp add: field_simps)
  ultimately have "\<bar>(2 * of_nat d) * (of_nat (round_half_even n d) - (of_nat n / of_nat d :: rat))\<bar>
      \<le> of_nat d" by simp
  then have "(2 * of_nat d) * \<bar>of_nat (round_half_even n d) - (of_nat n / of_nat d :: rat)\<bar>
      \<le> of_nat d"
    using d by (simp add: abs_mult)
  with d show ?thesis by (simp add: field_simps)
qed
lemma scaled_rounding:
  assumes "0 < b" and "b * 2 ^ 52 \<le> a"
  shows "\<bar>of_nat (round_half_even a b) * 2 powi e - (of_nat a / of_nat b) * 2 powi e\<bar>
    \<le> ((of_nat a / of_nat b) * 2 powi e :: rat) / 2 ^ 53"
proof -
  define P :: rat where "P = 2 powi e"
  define X :: rat where "X = of_nat a / of_nat b"
  define m :: rat where "m = of_nat (round_half_even a b)"
  have P: "0 < P" unfolding P_def by simp
  have b: "(0::rat) < of_nat b" using assms(1) by simp
  have "(of_nat (b * 2 ^ 52) :: rat) \<le> of_nat a"
    using assms(2) by (simp only: of_nat_le_iff)
  then have "(of_nat b :: rat) * 2 ^ 52 \<le> of_nat a" by simp
  with b have X: "2 ^ 52 \<le> X"
    unfolding X_def by (simp add: field_simps)
  have near: "\<bar>m - X\<bar> \<le> 1 / 2"
    unfolding m_def X_def using assms(1) by (rule round_half_even_error_rat)
  have "\<bar>m * P - X * P\<bar> = \<bar>m - X\<bar> * P"
    using P by (simp add: abs_mult flip: left_diff_distrib)
  also have "\<dots> \<le> (1 / 2) * P"
    using near P by (simp add: mult_right_mono)
  also have "\<dots> = (2 ^ 52 * P) / 2 ^ 53" by simp
  also have "\<dots> \<le> (X * P) / 2 ^ 53"
    using X P by (simp add: divide_right_mono mult_right_mono)
  finally show ?thesis unfolding m_def X_def P_def .
qed

lemma renormalised_value:
  "double_value (if m = 2 ^ 53 then (2 ^ 52, e + 1) else (m, e)) = of_nat m * 2 powi e"
  by (simp add: double_value_def power_int_add)

lemma scaled_numerator:
  fixes n d :: nat
  assumes "0 < n" and "0 < d"
  defines "s \<equiv> 53 + int (bitlen d) - int (bitlen n)"
  shows "0 \<le> s \<Longrightarrow> d * 2 ^ 52 \<le> n * 2 ^ nat s"
    and "s < 0 \<Longrightarrow> d * 2 ^ nat (- s) * 2 ^ 52 \<le> n"
proof -
  have up: "d < 2 ^ bitlen d" by (rule bitlen_upper)
  have low: "2 ^ bitlen n \<le> 2 * n" using assms(1) by (rule bitlen_lower)
  {
    assume "0 \<le> s"
    then have "bitlen n + nat s = 53 + bitlen d"
      unfolding s_def by linarith
    then have "(2::nat) ^ bitlen n * 2 ^ nat s = 2 ^ 53 * 2 ^ bitlen d"
      by (simp only: power_add [symmetric])
    moreover have "(2::nat) ^ bitlen n * 2 ^ nat s \<le> 2 * n * 2 ^ nat s"
      using low by (rule mult_le_mono1)
    moreover have "2 ^ 53 * d < 2 ^ 53 * 2 ^ bitlen d"
      using up by simp
    ultimately have "2 ^ 53 * d < 2 * n * 2 ^ nat s" by linarith
    then have "2 * (d * 2 ^ 52) < 2 * (n * 2 ^ nat s)" by simp
    then show "d * 2 ^ 52 \<le> n * 2 ^ nat s" by linarith
  }
  {
    assume "s < 0"
    then have "bitlen n = 53 + (bitlen d + nat (- s))"
      unfolding s_def by linarith
    then have "(2::nat) ^ bitlen n = 2 ^ 53 * (2 ^ bitlen d * 2 ^ nat (- s))"
      by (simp only: power_add [symmetric])
    moreover have "d * 2 ^ nat (- s) < 2 ^ bitlen d * 2 ^ nat (- s)"
      using up by simp
    then have "2 ^ 53 * (d * 2 ^ nat (- s)) < 2 ^ 53 * (2 ^ bitlen d * 2 ^ nat (- s))"
      by simp
    ultimately have "2 ^ 53 * (d * 2 ^ nat (- s)) < 2 * n"
      using low by linarith
    then have "2 * (d * 2 ^ nat (- s) * 2 ^ 52) < 2 * n" by simp
    then show "d * 2 ^ nat (- s) * 2 ^ 52 \<le> n" by linarith
  }
qed

lemma scaled_fraction:
  fixes n d :: nat and s :: int
  assumes "0 < d"
  shows "(of_nat (if 0 \<le> s then n * 2 ^ nat s else n)
          / of_nat (if 0 \<le> s then d else d * 2 ^ nat (- s))) * 2 powi (- s)
         = (of_nat n / of_nat d :: rat)"
proof (cases "0 \<le> s")
  case True
  then show ?thesis
    using assms by (simp add: power_int_def field_simps)
next
  case False
  then show ?thesis
    using assms by (simp add: power_int_def field_simps)
qed
lemma to_double_error:
  assumes "0 < n" and "0 < d"
  shows "\<bar>double_value (to_double n d) - of_nat n / of_nat d\<bar>
    \<le> (of_nat n / of_nat d :: rat) / 2 ^ 53"
proof -
  define s where "s = 53 + int (bitlen d) - int (bitlen n)"
  define n' where "n' = (if 0 \<le> s then n * 2 ^ nat s else n)"
  define d' where "d' = (if 0 \<le> s then d else d * 2 ^ nat (- s))"
  have d': "0 < d'"
    unfolding d'_def using assms(2) by simp
  have exact: "(of_nat n' / of_nat d') * 2 powi (- s) = (of_nat n / of_nat d :: rat)"
    unfolding n'_def d'_def using assms(2) by (rule scaled_fraction)
  have big: "d' * 2 ^ 52 \<le> n'"
    using scaled_numerator [OF assms] unfolding n'_def d'_def s_def by auto
  show ?thesis
  proof (cases "n' < d' * 2 ^ 53")
    case True
    define m where "m = round_half_even n' d'"
    have "to_double n d = (if m = 2 ^ 53 then (2 ^ 52, - s + 1) else (m, - s))"
      using True unfolding to_double_def Let_def m_def n'_def d'_def s_def by simp
    then have "double_value (to_double n d) = of_nat m * 2 powi (- s)"
      by (simp only: renormalised_value)
    moreover have "\<bar>of_nat m * 2 powi (- s) - (of_nat n' / of_nat d') * 2 powi (- s)\<bar>
        \<le> ((of_nat n' / of_nat d') * 2 powi (- s) :: rat) / 2 ^ 53"
      unfolding m_def using d' big by (rule scaled_rounding)
    ultimately show ?thesis
      by (simp only: exact)
  next
    case False
    define m where "m = round_half_even n' (2 * d')"
    have "to_double n d = (if m = 2 ^ 53 then (2 ^ 52, 1 - s + 1) else (m, 1 - s))"
      using False unfolding to_double_def Let_def m_def n'_def d'_def s_def by simp
    then have dv: "double_value (to_double n d) = of_nat m * 2 powi (1 - s)"
      by (simp only: renormalised_value)
    have pos: "0 < 2 * d'" using d' by simp
    have "d' * 2 ^ 53 \<le> n'" using False by simp
    then have big2: "2 * d' * 2 ^ 52 \<le> n'" by simp
    have near: "\<bar>of_nat m * 2 powi (1 - s) - (of_nat n' / of_nat (2 * d')) * 2 powi (1 - s)\<bar>
        \<le> ((of_nat n' / of_nat (2 * d')) * 2 powi (1 - s) :: rat) / 2 ^ 53"
      unfolding m_def using pos big2 by (rule scaled_rounding)
    have "(2::rat) powi (1 - s) = 2 * 2 powi (- s)"
      using power_int_add [of "2::rat" 1 "- s"] by simp
    then have "(of_nat n' / of_nat (2 * d')) * 2 powi (1 - s)
        = (of_nat n' / of_nat d' :: rat) * 2 powi (- s)"
      by simp
    with exact have "(of_nat n' / of_nat (2 * d')) * 2 powi (1 - s) = (of_nat n / of_nat d :: rat)"
      by simp
    with near dv show ?thesis
      by (simp only:)
  qed
qed

lemma to_double_positive:
  assumes "0 < n" and "0 < d"
  shows "0 < fst (to_double n d)"
proof (rule ccontr)
  assume "\<not> 0 < fst (to_double n d)"
  then have "double_value (to_double n d) = 0"
    by (simp add: double_value_def)
  with to_double_error [OF assms]
  have "\<bar>- (of_nat n / of_nat d :: rat)\<bar> \<le> (of_nat n / of_nat d) / 2 ^ 53"
    by simp
  moreover have "(0::rat) < of_nat n / of_nat d"
    using assms by simp
  ultimately show False by simp
qed
lemma js_mul100_error:
  assumes "0 < fst x"
  shows "\<bar>double_value (js_mul100 x) - 100 * double_value x\<bar>
    \<le> (100 * double_value x) / 2 ^ 53"
proof -
  obtain m e where x: "x = (m, e)" by (cases x)
  with assms have m: "0 < m" by simp
  show ?thesis
  proof (cases "0 \<le> e")
    case True
    have pos: "0 < m * 100 * 2 ^ nat e" using m by simp
    have eq: "(of_nat (m * 100 * 2 ^ nat e) / of_nat 1 :: rat) = 100 * double_value x"
      using True by (simp add: x double_value_def power_int_def)
    have call: "js_mul100 x = to_double (m * 100 * 2 ^ nat e) 1"
      using True by (simp add: js_mul100_def x)
    have "0 < (1::nat)" by simp
    with pos have "\<bar>double_value (to_double (m * 100 * 2 ^ nat e) 1)
        - of_nat (m * 100 * 2 ^ nat e) / of_nat 1\<bar>
        \<le> (of_nat (m * 100 * 2 ^ nat e) / of_nat 1 :: rat) / 2 ^ 53"
      by (rule to_double_error)
    then show ?thesis
      by (simp only: eq call)
  next
    case False
    have pos: "0 < m * 100" using m by simp
    have two: "(0::nat) < 2 ^ nat (- e)" by simp
    have eq: "(of_nat (m * 100) / of_nat (2 ^ nat (- e)) :: rat) = 100 * double_value x"
      using False by (simp add: x double_value_def power_int_def field_simps)
    have call: "js_mul100 x = to_double (m * 100) (2 ^ nat (- e))"
      using False by (simp add: js_mul100_def x)
    from pos two have "\<bar>double_value (to_double (m * 100) (2 ^ nat (- e)))
        - of_nat (m * 100) / of_nat (2 ^ nat (- e))\<bar>
        \<le> (of_nat (m * 100) / of_nat (2 ^ nat (- e)) :: rat) / 2 ^ 53"
      by (rule to_double_error)
    then show ?thesis
      by (simp only: eq call)
  qed
qed

lemma math_round_floor:
  "math_round x = \<lfloor>double_value x + 1 / 2\<rfloor>"
proof -
  obtain m e where x: "x = (m, e)" by (cases x)
  show ?thesis
  proof (cases "0 \<le> e")
    case True
    have "double_value x = of_int (int (m * 2 ^ nat e))"
      using True by (simp add: x double_value_def power_int_def)
    moreover have "\<lfloor>(of_int (int (m * 2 ^ nat e)) :: rat) + 1 / 2\<rfloor> = int (m * 2 ^ nat e)"
      by (rule floor_unique) simp_all
    ultimately have "\<lfloor>double_value x + 1 / 2\<rfloor> = int (m * 2 ^ nat e)"
      by (simp only:)
    with True show ?thesis by (simp add: math_round_def x)
  next
    case False
    define k where "k = nat (- e)"
    have "double_value x + 1 / 2 = of_nat m / 2 ^ k + 1 / 2"
      using False by (simp add: x double_value_def power_int_def k_def field_simps)
    also have "\<dots> = (of_nat (2 * m + 2 ^ k) :: rat) / of_nat (2 ^ (k + 1))"
      by (simp add: field_simps)
    finally have "\<lfloor>double_value x + 1 / 2\<rfloor>
        = \<lfloor>(of_nat (2 * m + 2 ^ k) :: rat) / of_nat (2 ^ (k + 1))\<rfloor>"
      by simp
    also have "\<dots> = int ((2 * m + 2 ^ k) div 2 ^ (k + 1))"
      by (rule floor_divide_of_nat_eq)
    finally show ?thesis
      using False by (simp add: math_round_def x k_def)
  qed
qed
lemma completion_rate_error:
  assumes C: "0 < C" and D: "0 < D"
  shows "\<bar>double_value (js_mul100 (js_div C D)) - 100 * of_nat C / of_nat D\<bar>
    \<le> 3 * (100 * of_nat C / of_nat D :: rat) / 2 ^ 53"
proof -
  define q :: rat where "q = of_nat C / of_nat D"
  define v1 where "v1 = double_value (js_div C D)"
  define v2 where "v2 = double_value (js_mul100 (js_div C D))"
  have q: "0 < q" unfolding q_def using C D by simp
  have "\<bar>v1 - q\<bar> \<le> q / 2 ^ 53"
    unfolding v1_def q_def js_div_def using C D by (rule to_double_error)
  then have "v1 - q \<le> q / 2 ^ 53" "- (v1 - q) \<le> q / 2 ^ 53"
    by (rule abs_le_D1, rule abs_le_D2)
  then have e1: "v1 - q \<le> q / 2 ^ 53" "q - v1 \<le> q / 2 ^ 53"
    by linarith+
  have "0 < fst (js_div C D)"
    unfolding js_div_def using C D by (rule to_double_positive)
  then have "\<bar>v2 - 100 * v1\<bar> \<le> (100 * v1) / 2 ^ 53"
    unfolding v2_def v1_def by (rule js_mul100_error)
  then have "v2 - 100 * v1 \<le> (100 * v1) / 2 ^ 53" "- (v2 - 100 * v1) \<le> (100 * v1) / 2 ^ 53"
    by (rule abs_le_D1, rule abs_le_D2)
  then have e2: "v2 - 100 * v1 \<le> (100 * v1) / 2 ^ 53" "100 * v1 - v2 \<le> (100 * v1) / 2 ^ 53"
    by linarith+
  have "q / 2 ^ 53 \<le> q" using q by (simp add: field_simps)
  with e1(1) have v1: "v1 \<le> 2 * q" by linarith
  then have "(100 * v1) / 2 ^ 53 \<le> (100 * (2 * q)) / 2 ^ 53"
    by (simp add: divide_right_mono)
  then have bound: "(100 * v1) / 2 ^ 53 \<le> 2 * (100 * (q / 2 ^ 53))" by simp
  have up: "v2 - 100 * q \<le> 3 * (100 * (q / 2 ^ 53))"
    using e1(1) e2(1) bound by linarith
  have down: "100 * q - v2 \<le> 3 * (100 * (q / 2 ^ 53))"
    using e1(2) e2(2) bound by linarith
  have "\<bar>v2 - 100 * q\<bar> \<le> 3 * (100 * (q / 2 ^ 53))"
    by (rule abs_leI) (use up down in linarith)+
  then show ?thesis
    unfolding v2_def q_def by simp
qed

lemma completion_rate_nearest:
  assumes C: "0 < C" and D: "0 < D" and small: "600 * C < 2 ^ 53"
  shows "\<exists>R. completion_rate C D = JSFinite R
    \<and> \<bar>of_int R - (100 * of_nat C / of_nat D :: rat)\<bar> \<le> 1 / 2"
proof -
  define x :: rat where "x = 100 * of_nat C / of_nat D"
  define v where "v = double_value (js_mul100 (js_div C D))"
  define R where "R = \<lfloor>v + 1 / 2\<rfloor>"
  define \<delta> :: rat where "\<delta> = 3 * x / 2 ^ 53"
  have Dr: "(0::rat) < of_nat D" using D by simp
  have rate: "completion_rate C D = JSFinite R"
    using C D by (simp add: completion_rate_def math_round_floor R_def v_def)
  have "\<bar>v - x\<bar> \<le> \<delta>"
    unfolding v_def x_def \<delta>_def using C D by (rule completion_rate_error)
  then have "v - x \<le> \<delta>" "- (v - x) \<le> \<delta>"
    by (rule abs_le_D1, rule abs_le_D2)
  then have err: "v - x \<le> \<delta>" "x - v \<le> \<delta>"
    by linarith+
  have "(of_nat (600 * C) :: rat) < of_nat (2 ^ 53)"
    using small by (simp only: of_nat_less_iff)
  then have "600 * (of_nat C :: rat) < 2 ^ 53" by simp
  then have "600 * (of_nat C :: rat) / 2 ^ 53 < 1" by simp
  moreover have "2 * of_nat D * \<delta> = 600 * (of_nat C :: rat) / 2 ^ 53"
    unfolding \<delta>_def x_def using Dr by simp
  ultimately have tiny: "2 * of_nat D * \<delta> < 1" by simp
  have fl: "of_int R \<le> v + 1 / 2" "v + 1 / 2 < of_int R + 1"
    unfolding R_def by linarith+
  have X: "2 * of_nat D * x = of_int (200 * int C)"
    unfolding x_def using Dr by simp
  have low: "of_int R - 1 / 2 \<le> x"
  proof -
    from err(1) fl(1) have "of_int R - 1 / 2 - \<delta> \<le> x" by linarith
    with Dr have "2 * of_nat D * (of_int R - 1 / 2 - \<delta>) \<le> 2 * of_nat D * x"
      by (simp add: mult_left_mono)
    then have "2 * of_nat D * of_int R - of_nat D - 2 * of_nat D * \<delta> \<le> 2 * of_nat D * x"
      by (simp add: algebra_simps)
    with tiny have "2 * of_nat D * of_int R - of_nat D - 1 < 2 * of_nat D * x"
      by linarith
    then have "(of_int (2 * int D * R - int D - 1) :: rat) < of_int (200 * int C)"
      unfolding X by simp
    then have "2 * int D * R - int D - 1 < 200 * int C"
      by (simp only: of_int_less_iff)
    then have "2 * int D * R - int D \<le> 200 * int C" by linarith
    then have "(of_int (2 * int D * R - int D) :: rat) \<le> of_int (200 * int C)"
      by (simp only: of_int_le_iff)
    then have "2 * of_nat D * of_int R - of_nat D \<le> 2 * of_nat D * x"
      unfolding X by simp
    then have "2 * of_nat D * (of_int R - 1 / 2) \<le> 2 * of_nat D * x"
      by (simp add: algebra_simps)
    with Dr show ?thesis by simp
  qed
  have high: "x \<le> of_int R + 1 / 2"
  proof -
    from err(2) fl(2) have "x < of_int R + 1 / 2 + \<delta>" by linarith
    with Dr have "2 * of_nat D * x < 2 * of_nat D * (of_int R + 1 / 2 + \<delta>)"
      by (simp add: mult_strict_left_mono)
    then have "2 * of_nat D * x < 2 * of_nat D * of_int R + of_nat D + 2 * of_nat D * \<delta>"
      by (simp add: algebra_simps)
    with tiny have "2 * of_nat D * x < 2 * of_nat D * of_int R + of_nat D + 1"
      by linarith
    then have "(of_int (200 * int C) :: rat) < of_int (2 * int D * R + int D + 1)"
      unfolding X by simp
    then have "200 * int C < 2 * int D * R + int D + 1"
      by (simp only: of_int_less_iff)
    then have "200 * int C \<le> 2 * int D * R + int D" by linarith
    then have "(of_int (200 * int C) :: rat) \<le> of_int (2 * int D * R + int D)"
      by (simp only: of_int_le_iff)
    then have "2 * of_nat D * x \<le> 2 * of_nat D * of_int R + of_nat D"
      unfolding X by simp
    then have "2 * of_nat D * x \<le> 2 * of_nat D * (of_int R + 1 / 2)"
      by (simp add: algebra_simps)
    with Dr show ?thesis by simp
  qed
  have "\<bar>of_int R - x\<bar> \<le> 1 / 2"
    by (rule abs_leI) (use low high in linarith)+
  with rate show ?thesis unfolding x_def by blast
qed

lemma nearest_is_round:
  fixes x :: rat
  assumes "\<bar>of_int R - x\<bar> \<le> 1 / 2" and "frac x \<noteq> 1 / 2"
  shows "R = round x"
proof -
  from assms(1) have "of_int R - x \<le> 1 / 2" "- (of_int R - x) \<le> 1 / 2"
    by (rule abs_le_D1, rule abs_le_D2)
  then have near: "of_int R \<le> x + 1 / 2" "x \<le> of_int R + 1 / 2"
    by linarith+
  have "x \<noteq> of_int R + 1 / 2"
  proof
    assume tie: "x = of_int R + 1 / 2"
    then have "of_int R \<le> x" "x < of_int R + 1"
      by linarith+
    then have "\<lfloor>x\<rfloor> = R" by (rule floor_unique)
    with tie have "frac x = 1 / 2"
      by (simp add: frac_def)
    with assms(2) show False by simp
  qed
  with near(2) have "x < of_int R + 1 / 2"
    by (rule le_neq_trans)
  then have "x + 1 / 2 < of_int R + 1" by linarith
  with near(1) have "\<lfloor>x + 1 / 2\<rfloor> = R" by (rule floor_unique)
  then show ?thesis by (simp add: round_def)
qed

subsection \<open>The list of started sends only grows\<close>

lemma product_step_extends:
  "\<exists>new. emailSendingPromises (snd (product_step week_earlier clock p j))
     = emailSendingPromises j @ new"
  by (simp add: product_step_def Let_def split: list.split prod.split)

lemma product_loop_extends:
  "\<exists>new. emailSendingPromises (snd (product_loop week_earlier clock ps j))
     = emailSendingPromises j @ new"
proof (induction ps arbitrary: j)
  case Nil
  show ?case by simp
next
  case (Cons p ps)
  obtain r j1 where step: "product_step week_earlier clock p j = (r, j1)"
    by (cases "product_step week_earlier clock p j")
  from product_step_extends [of week_earlier clock p j] step
  obtain new where new: "emailSendingPromises j1 = emailSendingPromises j @ new"
    by auto
  show ?case
  proof (cases r)
    case None
    from Cons.IH [of j1] obtain more where
      "emailSendingPromises (snd (product_loop week_earlier clock ps j1))
         = emailSendingPromises j1 @ more"
      by blast
    with None step new show ?thesis by simp
  next
    case (Some e)
    with step new show ?thesis by simp
  qed
qed

lemma product_loop_reaches:
  assumes "product_loop week_earlier clock earlier j0 = (None, j)"
  shows "\<exists>rest. emailSendingPromises
           (snd (product_loop week_earlier clock (earlier @ p # later) j0))
     = emailSendingPromises (snd (product_step week_earlier clock p j)) @ rest"
proof -
  obtain r j1 where step: "product_step week_earlier clock p j = (r, j1)"
    by (cases "product_step week_earlier clock p j")
  show ?thesis
  proof (cases r)
    case None
    with assms step have "product_loop week_earlier clock (earlier @ p # later) j0
        = product_loop week_earlier clock later j1"
      by (simp add: product_loop_append)
    with product_loop_extends [of week_earlier clock later j1] step show ?thesis
      by simp
  next
    case (Some e)
    with assms step have "product_loop week_earlier clock (earlier @ p # later) j0
        = (Some e, j1)"
      by (simp add: product_loop_append)
    with step show ?thesis by simp
  qed
qed

lemma POST_job:
  assumes "\<not> strict_not_equal x_api_key CRON_SECRET"
  shows "snd (POST x_api_key CRON_SECRET week_earlier clock rejects db) =
    snd (product_loop week_earlier clock (getProducts week_earlier (clock 0) db)
           \<lparr>emailSendingPromises = [], dates_created = 1, queries = 1\<rparr>)"
  using assms
  by (simp add: POST_authenticated split: prod.split option.split)

lemma POST_rejected:
  assumes "e \<in> set (emailSendingPromises (snd (POST x_api_key CRON_SECRET week_earlier clock rejects db)))"
    and "rejects e"
  shows "fst (POST x_api_key CRON_SECRET week_earlier clock rejects db) \<noteq> successResponse"
proof (cases "strict_not_equal x_api_key CRON_SECRET")
  case True
  then show ?thesis by (simp add: POST_def)
next
  case False
  obtain r j where loop: "product_loop week_earlier clock (getProducts week_earlier (clock 0) db)
      \<lparr>emailSendingPromises = [], dates_created = 1, queries = 1\<rparr> = (r, j)"
    by (cases "product_loop week_earlier clock (getProducts week_earlier (clock 0) db)
      \<lparr>emailSendingPromises = [], dates_created = 1, queries = 1\<rparr>")
  show ?thesis
  proof (cases r)
    case None
    from False loop have "snd (POST x_api_key CRON_SECRET week_earlier clock rejects db) = j"
      by (simp add: POST_job)
    with assms have "list_ex rejects (emailSendingPromises j)"
      by (auto simp: list_ex_iff)
    with None False loop show ?thesis
      by (simp add: POST_authenticated)
  next
    case (Some x)
    with False loop show ?thesis
      by (simp add: POST_authenticated)
  qed
qed

subsection \<open>Two products, evaluated\<close>

lemma select_globex:
  "select_product (utc_week_earlier (wall_clock 0)) (globex [weekly_poll c d])
     = fetched_globex [\<lparr>environment_id = ''e2'', surveys = [fetched_poll c d]\<rparr>]"
  by (simp add: select_product_def select_environment_def globex_def fetched_globex_def
      select_weekly_poll weekly_poll_status)

lemma fetched_globex_recipients:
  "teamMembersWithNotificationEnabled (fetched_globex envs) = [bob]"
  by (simp add: teamMembersWithNotificationEnabled_def fetched_globex_def
      notification_enabled_def alice_def bob_def)

lemma step_globex_summary:
  "product_step week_earlier clock
       (fetched_globex [\<lparr>environment_id = ''e2'', surveys = [fetched_poll (Suc 0) d]\<rparr>]) j
     = (None, j\<lparr>emailSendingPromises := emailSendingPromises j
          @ [sendWeeklySummaryNotificationEmail [bob]
               \<lparr>environmentId = ''e2'',
                currentDate = clock (dates_created j + 1),
                lastWeekDate = week_earlier (clock (dates_created j)),
                productName = None,
                nr_surveys =
                  [\<lparr>sd_id = None, sd_name = ''Weekly poll'',
                    sd_responses = [\<lparr>entry_headline = ''How was your week?'',
                                     answer = JSString ''Fine''\<rparr>]\<rparr>],
                nr_insights =
                  \<lparr>totalCompletedResponses = 1, totalDisplays = d, totalResponses = 1,
                   completionRate = completion_rate 1 d, numLiveSurvey = 0\<rparr>\<rparr>],
          dates_created := dates_created j + 2\<rparr>)"
proof -
  have env: "environments
      (fetched_globex [\<lparr>environment_id = ''e2'', surveys = [fetched_poll (Suc 0) d]\<rparr>])
      = [\<lparr>environment_id = ''e2'', surveys = [fetched_poll (Suc 0) d]\<rparr>]"
    by (simp add: fetched_globex_def)
  have name: "product_name
      (fetched_globex [\<lparr>environment_id = ''e2'', surveys = [fetched_poll (Suc 0) d]\<rparr>]) = None"
    by (simp add: fetched_globex_def)
  show ?thesis
    by (simp add: product_step_def fetched_globex_recipients env name fetched_poll_insights
        fetched_poll_data)
qed

lemma getProducts_two:
  "getProducts utc_week_earlier (wall_clock 0)
       [acme [weekly_poll 0 3], globex [weekly_poll (Suc 0) 2]]
     = [fetched_acme [\<lparr>environment_id = ''e1'', surveys = [fetched_poll 0 3]\<rparr>],
        fetched_globex [\<lparr>environment_id = ''e2'', surveys = [fetched_poll (Suc 0) 2]\<rparr>]]"
  by (simp add: getProducts_def Let_def select_acme select_globex)

lemma getProducts_two_products:
  "getProducts utc_week_earlier (wall_clock 0) two_products = [acme_quiet_week, globex_busy_week]"
  by (simp add: two_products_def acme_quiet_week_def globex_busy_week_def getProducts_two)

lemma step_acme_quiet_week:
  "product_step week_earlier clock acme_quiet_week j
     = (None, j\<lparr>emailSendingPromises := emailSendingPromises j
          @ [sendNoLiveSurveyNotificationEmail (ToAddress ''alice@example.com'') acme_quiet_week,
             sendNoLiveSurveyNotificationEmail (ToMembers [alice]) acme_quiet_week]\<rparr>)"
  unfolding acme_quiet_week_def by (rule step_acme_no_responses)

lemma step_globex_busy_week:
  "product_step utc_week_earlier wall_clock globex_busy_week
       \<lparr>emailSendingPromises = sent, dates_created = Suc 0, queries = Suc 0\<rparr>
     = (None, \<lparr>emailSendingPromises = sent
          @ [sendWeeklySummaryNotificationEmail [bob]
               \<lparr>environmentId = ''e2'',
                currentDate = 1700000000002,
                lastWeekDate = 1699395200001,
                productName = None,
                nr_surveys =
                  [\<lparr>sd_id = None, sd_name = ''Weekly poll'',
                    sd_responses = [\<lparr>entry_headline = ''How was your week?'',
                                     answer = JSString ''Fine''\<rparr>]\<rparr>],
                nr_insights =
                  \<lparr>totalCompletedResponses = 1, totalDisplays = 2, totalResponses = 1,
                   completionRate = JSFinite 50, numLiveSurvey = 0\<rparr>\<rparr>],
          dates_created = 3, queries = Suc 0\<rparr>)"
proof -
  have times: "wall_clock (Suc (Suc 0)) = 1700000000002"
    "utc_week_earlier (wall_clock (Suc 0)) = 1699395200001"
    by (simp_all add: wall_clock_def utc_week_earlier_def)
  have rate: "completion_rate (Suc 0) 2 = JSFinite 50"
    using completion_rate_examples(1) by simp
  show ?thesis
    unfolding globex_busy_week_def
    by (simp add: step_globex_summary times rate)
qed

lemma POST_two_products:
  "POST (Some ''s3cret'') (Some ''s3cret'') utc_week_earlier wall_clock rejects two_products =
     (if list_ex rejects
          [sendNoLiveSurveyNotificationEmail (ToAddress ''alice@example.com'') acme_quiet_week,
           sendNoLiveSurveyNotificationEmail (ToMembers [alice]) acme_quiet_week,
           sendWeeklySummaryNotificationEmail [bob]
             \<lparr>environmentId = ''e2'',
              currentDate = 1700000000002,
              lastWeekDate = 1699395200001,
              productName = None,
              nr_surveys =
                [\<lparr>sd_id = None, sd_name = ''Weekly poll'',
                  sd_responses = [\<lparr>entry_headline = ''How was your week?'',
                                   answer = JSString ''Fine''\<rparr>]\<rparr>],
              nr_insights =
                \<lparr>totalCompletedResponses = 1, totalDisplays = 2, totalResponses = 1,
                 completionRate = JSFinite 50, numLiveSurvey = 0\<rparr>\<rparr>]
      then uncaught SendRejected else successResponse,
      \<lparr>emailSendingPromises =
         [sendNoLiveSurveyNotificationEmail (ToAddress ''alice@example.com'') acme_quiet_week,
          sendNoLiveSurveyNotificationEmail (ToMembers [alice]) acme_quiet_week,
          sendWeeklySummaryNotificationEmail [bob]
            \<lparr>environmentId = ''e2'',
             currentDate = 1700000000002,
             lastWeekDate = 1699395200001,
             productName = None,
             nr_surveys =
               [\<lparr>sd_id = None, sd_name = ''Weekly poll'',
                 sd_responses = [\<lparr>entry_headline = ''How was your week?'',
                                  answer = JSString ''Fine''\<rparr>]\<rparr>],
             nr_insights =
               \<lparr>totalCompletedResponses = 1, totalDisplays = 2, totalResponses = 1,
                completionRate = JSFinite 50, numLiveSurvey = 0\<rparr>\<rparr>],
       dates_created = 3, queries = 1\<rparr>)"
  by (simp add: POST_def strict_not_equal_def getProducts_two_products step_acme_quiet_week
      step_globex_busy_week)

section \<open>Properties of the job\<close>

subsection \<open>Authentication\<close>

text \<open>
  Claim C8. A request whose \<^verbatim>\<open>x-api-key\<close> header does not equal the configured secret
  gets the unauthenticated response, and the run has made no database query and started
  no email send. The header does not equal the secret unless both are present and the
  same string: a request without the header is turned away also when no secret is
  configured.
\<close>

theorem unauthenticated_no_processing:
  assumes "\<not> (\<exists>v. x_api_key = Some v \<and> CRON_SECRET = Some v)"
  shows "POST x_api_key CRON_SECRET week_earlier clock rejects db = (notAuthenticatedResponse, idle)
    \<and> queries (snd (POST x_api_key CRON_SECRET week_earlier clock rejects db)) = 0
    \<and> emailSendingPromises (snd (POST x_api_key CRON_SECRET week_earlier clock rejects db)) = []"
proof -
  from assms have "strict_not_equal x_api_key CRON_SECRET"
    by (simp add: strict_not_equal_iff)
  then show ?thesis
    by (simp add: POST_def idle_def)
qed

theorem unauthenticated_no_processing_witness:
  "\<not> (\<exists>v. Some ''guess'' = Some v \<and> Some ''s3cret'' = Some v)
   \<and> POST (Some ''guess'') (Some ''s3cret'') utc_week_earlier wall_clock (\<lambda>e. False)
        [acme [weekly_poll (Suc 0) 2]] = (notAuthenticatedResponse, idle)
   \<and> \<not> (\<exists>v. (None :: string option) = Some v \<and> (None :: string option) = Some v)
   \<and> POST None None utc_week_earlier wall_clock (\<lambda>e. False)
        [acme [weekly_poll (Suc 0) 2]] = (notAuthenticatedResponse, idle)
   \<and> \<not> (\<exists>v. (None :: string option) = Some v \<and> Some ''s3cret'' = Some v)
   \<and> POST None (Some ''s3cret'') utc_week_earlier wall_clock (\<lambda>e. False)
        [acme [weekly_poll (Suc 0) 2]] = (notAuthenticatedResponse, idle)
   \<and> queries idle = 0
   \<and> emailSendingPromises idle = []"
proof -
  have wrong: "\<not> (\<exists>v. Some ''guess'' = Some v \<and> Some ''s3cret'' = Some v)"
    by simp
  have neither: "\<not> (\<exists>v. (None :: string option) = Some v \<and> (None :: string option) = Some v)"
    by simp
  have absent: "\<not> (\<exists>v. (None :: string option) = Some v \<and> Some ''s3cret'' = Some v)"
    by simp
  have a: "POST (Some ''guess'') (Some ''s3cret'') utc_week_earlier wall_clock (\<lambda>e. False)
      [acme [weekly_poll (Suc 0) 2]] = (notAuthenticatedResponse, idle)"
    using unauthenticated_no_processing [OF wrong] by (rule conjunct1)
  have b: "POST None None utc_week_earlier wall_clock (\<lambda>e. False)
      [acme [weekly_poll (Suc 0) 2]] = (notAuthenticatedResponse, idle)"
    using unauthenticated_no_processing [OF neither] by (rule conjunct1)
  have c: "POST None (Some ''s3cret'') utc_week_earlier wall_clock (\<lambda>e. False)
      [acme [weekly_poll (Suc 0) 2]] = (notAuthenticatedResponse, idle)"
    using unauthenticated_no_processing [OF absent] by (rule conjunct1)
  show ?thesis
    by (intro conjI) (rule wrong neither absent a b c | simp add: idle_def)+
qed

subsection \<open>Recipients\<close>

text \<open>
  Claim C7. A team member is a recipient for a product exactly when the member's
  notification settings hold a weekly summary map whose entry for the product's id is
  enabled; missing settings, a missing map and a missing entry all mean disabled.
\<close>

theorem recipient_iff_enabled:
  "(member \<in> set (teamMembersWithNotificationEnabled p) \<longleftrightarrow>
      member \<in> set (memberships (team p))
      \<and> (\<exists>settings flags. notificationSettings (user member) = Some settings
            \<and> weeklySummary settings = Some flags
            \<and> flags (product_id p) = Some True))
   \<and> (notificationSettings (user m1) = None
        \<longrightarrow> m1 \<notin> set (teamMembersWithNotificationEnabled p))
   \<and> ((\<exists>settings. notificationSettings (user m2) = Some settings
          \<and> weeklySummary settings = None)
        \<longrightarrow> m2 \<notin> set (teamMembersWithNotificationEnabled p))
   \<and> ((\<exists>settings flags. notificationSettings (user m3) = Some settings
          \<and> weeklySummary settings = Some flags \<and> flags (product_id p) = None)
        \<longrightarrow> m3 \<notin> set (teamMembersWithNotificationEnabled p))"
  by (auto simp: teamMembersWithNotificationEnabled_def notification_enabled_def
      split: option.splits)

theorem recipient_iff_enabled_witness:
  "alice \<in> set (teamMembersWithNotificationEnabled (fetched_acme []))
   \<and> notificationSettings (user carol) = None
   \<and> carol \<notin> set (teamMembersWithNotificationEnabled (fetched_acme []))
   \<and> (\<exists>settings. notificationSettings (user dave) = Some settings
          \<and> weeklySummary settings = None)
   \<and> dave \<notin> set (teamMembersWithNotificationEnabled (fetched_acme []))
   \<and> (\<exists>settings flags. notificationSettings (user bob) = Some settings
          \<and> weeklySummary settings = Some flags
          \<and> flags (product_id (fetched_acme [])) = None)
   \<and> bob \<notin> set (teamMembersWithNotificationEnabled (fetched_acme []))"
proof -
  have in_team: "alice \<in> set (memberships (team (fetched_acme [])))"
    by (simp add: fetched_acme_def)
  have on: "\<exists>settings flags. notificationSettings (user alice) = Some settings
      \<and> weeklySummary settings = Some flags
      \<and> flags (product_id (fetched_acme [])) = Some True"
    by (simp add: alice_def fetched_acme_def)
  have no_settings: "notificationSettings (user carol) = None"
    by (simp add: carol_def)
  have no_map: "\<exists>settings. notificationSettings (user dave) = Some settings
      \<and> weeklySummary settings = None"
    by (simp add: dave_def)
  have no_key: "\<exists>settings flags. notificationSettings (user bob) = Some settings
      \<and> weeklySummary settings = Some flags
      \<and> flags (product_id (fetched_acme [])) = None"
    by (simp add: bob_def fetched_acme_def)
  from recipient_iff_enabled [of alice "fetched_acme []" carol dave bob]
    in_team on no_settings no_map no_key
  show ?thesis by blast
qed

subsection \<open>The first production environment\<close>

text \<open>
  Claim C10. For a product with an enabled recipient the handler reads the first
  production environment whatever the list holds: on an empty list the iteration throws.
  So a run answers with the success response only if every product with an enabled
  recipient has a production environment.
\<close>

theorem success_needs_production_environment:
  "(teamMembersWithNotificationEnabled p \<noteq> [] \<and> environments p = []
      \<longrightarrow> product_step week_earlier clock p j = (Some TypeError, j))
   \<and> (fst (POST x_api_key CRON_SECRET week_earlier clock rejects db) = successResponse
      \<longrightarrow> (\<forall>p \<in> set (getProducts week_earlier (clock 0) db).
             teamMembersWithNotificationEnabled p \<noteq> [] \<longrightarrow> environments p \<noteq> [])
        \<and> (\<forall>dp \<in> set db.
             (\<exists>member \<in> set (memberships (db_product_team dp)).
                notification_enabled (db_product_id dp) member)
             \<longrightarrow> (\<exists>e \<in> set (db_product_environments dp).
                    db_environment_type e = ''production'')))"
proof (intro conjI impI)
  assume "teamMembersWithNotificationEnabled p \<noteq> [] \<and> environments p = []"
  then show "product_step week_earlier clock p j = (Some TypeError, j)"
    by (simp add: product_step_no_environment)
next
  assume ok: "fst (POST x_api_key CRON_SECRET week_earlier clock rejects db) = successResponse"
  then obtain j' where loop: "product_loop week_earlier clock (getProducts week_earlier (clock 0) db)
      \<lparr>emailSendingPromises = [], dates_created = 1, queries = 1\<rparr> = (None, j')"
    using POST_success_loop by blast
  show fetched: "\<forall>p \<in> set (getProducts week_earlier (clock 0) db).
      teamMembersWithNotificationEnabled p \<noteq> [] \<longrightarrow> environments p \<noteq> []"
    using product_loop_completes [OF loop] by blast
  show "\<forall>dp \<in> set db.
      (\<exists>member \<in> set (memberships (db_product_team dp)).
         notification_enabled (db_product_id dp) member)
      \<longrightarrow> (\<exists>e \<in> set (db_product_environments dp). db_environment_type e = ''production'')"
  proof (intro ballI impI)
    fix dp
    assume dp: "dp \<in> set db"
      and en: "\<exists>member \<in> set (memberships (db_product_team dp)).
                 notification_enabled (db_product_id dp) member"
    let ?p = "select_product (week_earlier (clock 0)) dp"
    from dp have "?p \<in> set (getProducts week_earlier (clock 0) db)"
      by (simp add: getProducts_def)
    moreover from en have "teamMembersWithNotificationEnabled ?p \<noteq> []"
      by (auto simp: recipients_select_product filter_empty_conv)
    ultimately have "environments ?p \<noteq> []"
      using fetched by blast
    then show "\<exists>e \<in> set (db_product_environments dp). db_environment_type e = ''production''"
      by (simp add: environments_select_product)
  qed
qed

theorem success_needs_production_environment_witness:
  "teamMembersWithNotificationEnabled (fetched_acme []) \<noteq> []
   \<and> environments (fetched_acme []) = []
   \<and> product_step utc_week_earlier wall_clock (fetched_acme []) idle = (Some TypeError, idle)
   \<and> fst (POST (Some ''s3cret'') (Some ''s3cret'') utc_week_earlier wall_clock (\<lambda>e. False)
            [acme [weekly_poll (Suc 0) 2]]) = successResponse
   \<and> list_all (\<lambda>p. teamMembersWithNotificationEnabled p \<noteq> [] \<and> environments p \<noteq> [])
         (getProducts utc_week_earlier (wall_clock 0) [acme [weekly_poll (Suc 0) 2]])
   \<and> list_all (\<lambda>dp.
           list_ex (notification_enabled (db_product_id dp)) (memberships (db_product_team dp))
           \<and> list_ex (\<lambda>e. db_environment_type e = ''production'')
                 (db_product_environments dp))
         [acme [weekly_poll (Suc 0) 2]]"
proof -
  have a: "teamMembersWithNotificationEnabled (fetched_acme []) \<noteq> []
      \<and> environments (fetched_acme []) = []"
    by (simp add: fetched_acme_recipients) (simp add: fetched_acme_def)
  have b: "fst (POST (Some ''s3cret'') (Some ''s3cret'') utc_week_earlier wall_clock (\<lambda>e. False)
      [acme [weekly_poll (Suc 0) 2]]) = successResponse"
    by (simp add: POST_acme_summary)
  have c: "list_all (\<lambda>p. teamMembersWithNotificationEnabled p \<noteq> [])
      (getProducts utc_week_earlier (wall_clock 0) [acme [weekly_poll (Suc 0) 2]])"
    by (simp add: getProducts_acme fetched_acme_recipients)
  have d: "list_all (\<lambda>dp.
      list_ex (notification_enabled (db_product_id dp)) (memberships (db_product_team dp)))
      [acme [weekly_poll (Suc 0) 2]]"
    by (simp add: acme_def acme_with_def)
  from a b c d success_needs_production_environment
    [of "fetched_acme []" utc_week_earlier wall_clock idle "Some ''s3cret''" "Some ''s3cret''" "\<lambda>e. False"
      "[acme [weekly_poll (Suc 0) 2]]"]
  show ?thesis
    unfolding list_all_iff list_ex_iff by blast
qed

subsection \<open>Joint waiting\<close>

text \<open>
  Claim C9. Every send of every product goes onto one list, started whatever the fate of
  the others, and the list is awaited once after the loop. The sends started do not depend
  on which of them reject; a run with a rejecting send does not return the success
  response; a run that would succeed with every send delivered ends in the rejection as
  soon as one send rejects. The list is the one list of all products: whenever the loop
  reaches a product, the iteration of that product only appends to the sends of the
  products before it, the list it leaves is the beginning of the list the run awaits, and
  a rejecting send in it, of this product or of an earlier one, keeps the run from
  returning the success response whatever the later products send. After the last
  product the list is awaited as that product's iteration left it.
\<close>

theorem sends_awaited_jointly:
  "snd (POST x_api_key CRON_SECRET week_earlier clock rejects db)
     = snd (POST x_api_key CRON_SECRET week_earlier clock (\<lambda>e. False) db)
   \<and> ((\<exists>e \<in> set (emailSendingPromises
                     (snd (POST x_api_key CRON_SECRET week_earlier clock rejects db))).
          rejects e)
        \<longrightarrow> fst (POST x_api_key CRON_SECRET week_earlier clock rejects db) \<noteq> successResponse)
   \<and> (fst (POST x_api_key CRON_SECRET week_earlier clock (\<lambda>e. False) db) = successResponse
        \<longrightarrow> fst (POST x_api_key CRON_SECRET week_earlier clock rejects db) =
            (if \<exists>e \<in> set (emailSendingPromises
                              (snd (POST x_api_key CRON_SECRET week_earlier clock
                                      (\<lambda>e. False) db))).
                  rejects e
             then uncaught SendRejected else successResponse))
   \<and> (\<not> strict_not_equal x_api_key CRON_SECRET
        \<and> getProducts week_earlier (clock 0) db = earlier @ p # later
        \<and> product_loop week_earlier clock earlier
              \<lparr>emailSendingPromises = [], dates_created = 1, queries = 1\<rparr> = (None, j)
        \<longrightarrow> (\<exists>new. emailSendingPromises (snd (product_step week_earlier clock p j))
                     = emailSendingPromises j @ new)
          \<and> (\<exists>rest. emailSendingPromises
                       (snd (POST x_api_key CRON_SECRET week_earlier clock rejects db))
                     = emailSendingPromises (snd (product_step week_earlier clock p j)) @ rest)
          \<and> ((\<exists>e \<in> set (emailSendingPromises (snd (product_step week_earlier clock p j))).
                 rejects e)
               \<longrightarrow> fst (POST x_api_key CRON_SECRET week_earlier clock rejects db)
                     \<noteq> successResponse)
          \<and> (later = []
               \<longrightarrow> snd (POST x_api_key CRON_SECRET week_earlier clock rejects db)
                     = snd (product_step week_earlier clock p j)))"
proof -
  have same: "snd (POST x_api_key CRON_SECRET week_earlier clock rejects db)
      = snd (POST x_api_key CRON_SECRET week_earlier clock (\<lambda>e. False) db)"
  proof (cases "strict_not_equal x_api_key CRON_SECRET")
    case True
    then show ?thesis by (simp add: POST_def)
  next
    case False
    then show ?thesis by (simp add: POST_job)
  qed
  have rejected: "fst (POST x_api_key CRON_SECRET week_earlier clock rejects db) \<noteq> successResponse"
    if "\<exists>e \<in> set (emailSendingPromises
          (snd (POST x_api_key CRON_SECRET week_earlier clock rejects db))). rejects e"
    using that POST_rejected by blast
  have outcome: "fst (POST x_api_key CRON_SECRET week_earlier clock rejects db) =
      (if \<exists>e \<in> set (emailSendingPromises
                        (snd (POST x_api_key CRON_SECRET week_earlier clock (\<lambda>e. False) db))).
            rejects e
       then uncaught SendRejected else successResponse)"
    if ok: "fst (POST x_api_key CRON_SECRET week_earlier clock (\<lambda>e. False) db) = successResponse"
  proof -
    from ok have auth: "\<not> strict_not_equal x_api_key CRON_SECRET"
      by (auto simp: POST_def)
    from ok obtain j' where loop: "product_loop week_earlier clock
        (getProducts week_earlier (clock 0) db)
        \<lparr>emailSendingPromises = [], dates_created = 1, queries = 1\<rparr> = (None, j')"
      using POST_success_loop by blast
    with auth show ?thesis
      by (simp add: POST_authenticated list_ex_iff)
  qed
  have collected: "(\<exists>new. emailSendingPromises (snd (product_step week_earlier clock p j))
                     = emailSendingPromises j @ new)
      \<and> (\<exists>rest. emailSendingPromises
                   (snd (POST x_api_key CRON_SECRET week_earlier clock rejects db))
                 = emailSendingPromises (snd (product_step week_earlier clock p j)) @ rest)
      \<and> ((\<exists>e \<in> set (emailSendingPromises (snd (product_step week_earlier clock p j))).
             rejects e)
           \<longrightarrow> fst (POST x_api_key CRON_SECRET week_earlier clock rejects db)
                 \<noteq> successResponse)
      \<and> (later = []
           \<longrightarrow> snd (POST x_api_key CRON_SECRET week_earlier clock rejects db)
                 = snd (product_step week_earlier clock p j))"
    if auth: "\<not> strict_not_equal x_api_key CRON_SECRET"
      and split: "getProducts week_earlier (clock 0) db = earlier @ p # later"
      and reached: "product_loop week_earlier clock earlier
          \<lparr>emailSendingPromises = [], dates_created = 1, queries = 1\<rparr> = (None, j)"
  proof -
    have grows: "\<exists>new. emailSendingPromises (snd (product_step week_earlier clock p j))
        = emailSendingPromises j @ new"
      by (rule product_step_extends)
    from product_loop_reaches [OF reached, of p later]
    obtain rest where "emailSendingPromises
          (snd (product_loop week_earlier clock (earlier @ p # later)
                  \<lparr>emailSendingPromises = [], dates_created = 1, queries = 1\<rparr>))
        = emailSendingPromises (snd (product_step week_earlier clock p j)) @ rest"
      by blast
    with auth split have prefix: "emailSendingPromises
          (snd (POST x_api_key CRON_SECRET week_earlier clock rejects db))
        = emailSendingPromises (snd (product_step week_earlier clock p j)) @ rest"
      by (simp add: POST_job)
    have "fst (POST x_api_key CRON_SECRET week_earlier clock rejects db) \<noteq> successResponse"
      if "\<exists>e \<in> set (emailSendingPromises (snd (product_step week_earlier clock p j))).
            rejects e"
    proof -
      from that prefix have "\<exists>e \<in> set (emailSendingPromises
          (snd (POST x_api_key CRON_SECRET week_earlier clock rejects db))). rejects e"
        by auto
      then show ?thesis by (rule rejected)
    qed
    moreover have "snd (POST x_api_key CRON_SECRET week_earlier clock rejects db)
        = snd (product_step week_earlier clock p j)" if "later = []"
    proof -
      obtain r j1 where step: "product_step week_earlier clock p j = (r, j1)"
        by (cases "product_step week_earlier clock p j")
      with reached that have "snd (product_loop week_earlier clock (earlier @ p # later)
          \<lparr>emailSendingPromises = [], dates_created = 1, queries = 1\<rparr>) = j1"
        by (cases r) (simp_all add: product_loop_append)
      with auth split step show ?thesis
        by (simp add: POST_job)
    qed
    ultimately show ?thesis
      using grows prefix by blast
  qed
  from same rejected outcome collected show ?thesis
    by blast
qed

theorem sends_awaited_jointly_witness:
  "\<not> strict_not_equal (Some ''s3cret'') (Some ''s3cret'')
   \<and> getProducts utc_week_earlier (wall_clock 0) two_products
       = [] @ acme_quiet_week # [globex_busy_week]
   \<and> product_loop utc_week_earlier wall_clock []
         \<lparr>emailSendingPromises = [], dates_created = 1, queries = 1\<rparr>
       = (None, \<lparr>emailSendingPromises = [], dates_created = 1, queries = 1\<rparr>)
   \<and> emailSendingPromises (snd (product_step utc_week_earlier wall_clock acme_quiet_week
         \<lparr>emailSendingPromises = [], dates_created = 1, queries = 1\<rparr>))
       = [sendNoLiveSurveyNotificationEmail (ToAddress ''alice@example.com'') acme_quiet_week,
          sendNoLiveSurveyNotificationEmail (ToMembers [alice]) acme_quiet_week]
   \<and> (\<exists>e \<in> set (emailSendingPromises
         (snd (product_step utc_week_earlier wall_clock acme_quiet_week
                 \<lparr>emailSendingPromises = [], dates_created = 1, queries = 1\<rparr>))).
         address_sends_fail e)
   \<and> (\<exists>rest. emailSendingPromises
         (snd (POST (Some ''s3cret'') (Some ''s3cret'') utc_week_earlier wall_clock
                 address_sends_fail two_products))
       = emailSendingPromises (snd (product_step utc_week_earlier wall_clock acme_quiet_week
           \<lparr>emailSendingPromises = [], dates_created = 1, queries = 1\<rparr>)) @ rest)
   \<and> length (emailSendingPromises
         (snd (POST (Some ''s3cret'') (Some ''s3cret'') utc_week_earlier wall_clock
                 address_sends_fail two_products))) = 3
   \<and> fst (POST (Some ''s3cret'') (Some ''s3cret'') utc_week_earlier wall_clock
            address_sends_fail two_products) \<noteq> successResponse
   \<and> fst (POST (Some ''s3cret'') (Some ''s3cret'') utc_week_earlier wall_clock
            address_sends_fail two_products) = uncaught SendRejected
   \<and> fst (POST (Some ''s3cret'') (Some ''s3cret'') utc_week_earlier wall_clock
            (\<lambda>e. False) two_products) = successResponse
   \<and> snd (POST (Some ''s3cret'') (Some ''s3cret'') utc_week_earlier wall_clock
            address_sends_fail two_products)
     = snd (POST (Some ''s3cret'') (Some ''s3cret'') utc_week_earlier wall_clock
            (\<lambda>e. False) two_products)"
proof -
  let ?started = "\<lparr>emailSendingPromises = [], dates_created = 1, queries = 1\<rparr>"
  have auth: "\<not> strict_not_equal (Some ''s3cret'') (Some ''s3cret'')"
    by (simp add: strict_not_equal_def)
  have split: "getProducts utc_week_earlier (wall_clock 0) two_products
      = [] @ acme_quiet_week # [globex_busy_week]"
    by (simp add: getProducts_two_products)
  have reached: "product_loop utc_week_earlier wall_clock [] ?started = (None, ?started)"
    by simp
  have first: "emailSendingPromises
      (snd (product_step utc_week_earlier wall_clock acme_quiet_week ?started))
      = [sendNoLiveSurveyNotificationEmail (ToAddress ''alice@example.com'') acme_quiet_week,
         sendNoLiveSurveyNotificationEmail (ToMembers [alice]) acme_quiet_week]"
    by (simp add: step_acme_quiet_week)
  have fails: "\<exists>e \<in> set (emailSendingPromises
      (snd (product_step utc_week_earlier wall_clock acme_quiet_week ?started))).
      address_sends_fail e"
    unfolding first by simp
  have three: "length (emailSendingPromises
      (snd (POST (Some ''s3cret'') (Some ''s3cret'') utc_week_earlier wall_clock
              address_sends_fail two_products))) = 3"
    by (simp add: POST_two_products)
  have bad: "fst (POST (Some ''s3cret'') (Some ''s3cret'') utc_week_earlier wall_clock
      address_sends_fail two_products) = uncaught SendRejected"
    by (simp add: POST_two_products)
  have good: "fst (POST (Some ''s3cret'') (Some ''s3cret'') utc_week_earlier wall_clock
      (\<lambda>e. False) two_products) = successResponse"
    by (simp add: POST_two_products)
  note whole = sends_awaited_jointly [of "Some ''s3cret''" "Some ''s3cret''" utc_week_earlier
      wall_clock address_sends_fail two_products "[]" acme_quiet_week "[globex_busy_week]"
      ?started]
  from whole have same: "snd (POST (Some ''s3cret'') (Some ''s3cret'') utc_week_earlier wall_clock
        address_sends_fail two_products)
      = snd (POST (Some ''s3cret'') (Some ''s3cret'') utc_week_earlier wall_clock
        (\<lambda>e. False) two_products)"
    by (rule conjunct1)
  from auth split reached have reach: "\<not> strict_not_equal (Some ''s3cret'') (Some ''s3cret'')
      \<and> getProducts utc_week_earlier (wall_clock 0) two_products
          = [] @ acme_quiet_week # [globex_busy_week]
      \<and> product_loop utc_week_earlier wall_clock [] ?started = (None, ?started)"
    by (intro conjI)
  note part = whole [THEN conjunct2, THEN conjunct2, THEN conjunct2, THEN mp, OF reach]
  have collected: "\<exists>rest. emailSendingPromises
        (snd (POST (Some ''s3cret'') (Some ''s3cret'') utc_week_earlier wall_clock
                address_sends_fail two_products))
      = emailSendingPromises
          (snd (product_step utc_week_earlier wall_clock acme_quiet_week ?started)) @ rest"
    by (rule part [THEN conjunct2, THEN conjunct1])
  have no_success: "fst (POST (Some ''s3cret'') (Some ''s3cret'') utc_week_earlier wall_clock
      address_sends_fail two_products) \<noteq> successResponse"
    by (rule part [THEN conjunct2, THEN conjunct2, THEN conjunct1, THEN mp, OF fails])
  show ?thesis
    by (intro conjI)
      (rule auth split reached first fails collected three no_success bad good same)+
qed

subsection \<open>Products without recipients\<close>

text \<open>
  Claim C5. A product none of whose team members has the weekly summary enabled is
  passed over: its iteration starts no send, reads no clock and cannot throw, whatever
  its environments and surveys hold, and the whole run answers and sends exactly what it
  would without the product.
\<close>

theorem no_recipients_product_is_skipped:
  assumes "filter (notification_enabled (db_product_id dp)) (memberships (db_product_team dp))
             = []"
  shows "POST x_api_key CRON_SECRET week_earlier clock rejects (before @ dp # after)
           = POST x_api_key CRON_SECRET week_earlier clock rejects (before @ after)
    \<and> product_step week_earlier clock (select_product (week_earlier (clock 0)) dp) j = (None, j)"
proof -
  let ?p = "select_product (week_earlier (clock 0)) dp"
  from assms have none: "teamMembersWithNotificationEnabled ?p = []"
    by (simp add: recipients_select_product)
  then have step: "\<And>j. product_step week_earlier clock ?p j = (None, j)"
    by (rule product_step_skip)
  have "product_loop week_earlier clock (getProducts week_earlier (clock 0) (before @ dp # after)) j0
      = product_loop week_earlier clock (getProducts week_earlier (clock 0) (before @ after)) j0" for j0
  proof -
    let ?f = "select_product (week_earlier (clock 0))"
    have "product_loop week_earlier clock (map ?f before @ ?p # map ?f after) j0
        = product_loop week_earlier clock (map ?f before @ map ?f after) j0"
    proof (cases "product_loop week_earlier clock (map ?f before) j0")
      case (Pair r j1)
      then show ?thesis
        by (cases r) (simp_all add: product_loop_append step)
    qed
    then show ?thesis by (simp add: getProducts_def Let_def)
  qed
  then have "POST x_api_key CRON_SECRET week_earlier clock rejects (before @ dp # after)
           = POST x_api_key CRON_SECRET week_earlier clock rejects (before @ after)"
    unfolding POST_def Let_def by simp
  with step show ?thesis by simp
qed

theorem no_recipients_product_is_skipped_witness:
  "filter (notification_enabled (db_product_id quiet)) (memberships (db_product_team quiet)) = []
   \<and> POST (Some ''s3cret'') (Some ''s3cret'') utc_week_earlier wall_clock (\<lambda>e. False)
        ([acme [weekly_poll (Suc 0) 2]] @ quiet # [])
     = POST (Some ''s3cret'') (Some ''s3cret'') utc_week_earlier wall_clock (\<lambda>e. False)
        ([acme [weekly_poll (Suc 0) 2]] @ [])
   \<and> product_step utc_week_earlier wall_clock (select_product (utc_week_earlier (wall_clock 0)) quiet) idle
     = (None, idle)"
proof -
  have a: "filter (notification_enabled (db_product_id quiet))
      (memberships (db_product_team quiet)) = []"
    by (simp add: quiet_def notification_enabled_def bob_def carol_def)
  from a no_recipients_product_is_skipped [OF a, of "Some ''s3cret''" "Some ''s3cret''"
      utc_week_earlier wall_clock "\<lambda>e. False" "[acme [weekly_poll (Suc 0) 2]]" "[]" idle]
  show ?thesis by blast
qed

subsection \<open>Products with completed responses\<close>

text \<open>
  Claim C6. For a product with an enabled recipient whose surveys hold a finished
  response, the iteration starts exactly one send, the weekly summary, addressed to the
  whole list of enabled recipients; no other send is started for the product.
\<close>

theorem weekly_summary_sent_once:
  assumes "teamMembersWithNotificationEnabled p \<noteq> []"
    and "environments p = environment # others"
    and "0 < (\<Sum>s\<leftarrow>surveys environment. length (filter finished (responses s)))"
  shows "\<exists>payload j'. product_step week_earlier clock p j = (None, j')
    \<and> emailSendingPromises j' = emailSendingPromises j
         @ [sendWeeklySummaryNotificationEmail (teamMembersWithNotificationEnabled p) payload]"
proof -
  obtain collected insights where
    loop: "survey_loop (surveys environment) ([], initial_insights) = (collected, insights)"
    by (cases "survey_loop (surveys environment) ([], initial_insights)")
  have "totalCompletedResponses insights =
      (\<Sum>s\<leftarrow>surveys environment. length (filter finished (responses s)))"
    using survey_loop_completed [of "surveys environment" "[]" initial_insights] loop
    by (simp add: initial_insights_def)
  with assms(3) have "totalCompletedResponses insights \<noteq> 0" by linarith
  with assms(1,2) loop show ?thesis
    by (simp add: product_step_def Let_def)
qed

theorem weekly_summary_sent_once_witness:
  "teamMembersWithNotificationEnabled
       (fetched_acme [\<lparr>environment_id = ''e1'', surveys = [fetched_poll (Suc 0) 2]\<rparr>]) \<noteq> []
   \<and> environments
       (fetched_acme [\<lparr>environment_id = ''e1'', surveys = [fetched_poll (Suc 0) 2]\<rparr>])
       = \<lparr>environment_id = ''e1'', surveys = [fetched_poll (Suc 0) 2]\<rparr> # []
   \<and> 0 < (\<Sum>s\<leftarrow>surveys \<lparr>environment_id = ''e1'', surveys = [fetched_poll (Suc 0) 2]\<rparr>.
             length (filter finished (responses s)))
   \<and> (\<exists>payload j'.
         product_step utc_week_earlier wall_clock
           (fetched_acme [\<lparr>environment_id = ''e1'', surveys = [fetched_poll (Suc 0) 2]\<rparr>]) idle
           = (None, j')
         \<and> emailSendingPromises j' = emailSendingPromises idle
              @ [sendWeeklySummaryNotificationEmail
                   (teamMembersWithNotificationEnabled
                      (fetched_acme
                         [\<lparr>environment_id = ''e1'', surveys = [fetched_poll (Suc 0) 2]\<rparr>]))
                   payload])"
proof -
  let ?env = "\<lparr>environment_id = ''e1'', surveys = [fetched_poll (Suc 0) 2]\<rparr>"
  have a: "teamMembersWithNotificationEnabled (fetched_acme [?env]) \<noteq> []"
    by (simp add: fetched_acme_recipients)
  have b: "environments (fetched_acme [?env]) = ?env # []"
    by (simp add: fetched_acme_def)
  have c: "0 < (\<Sum>s\<leftarrow>surveys ?env. length (filter finished (responses s)))"
    by (simp add: fetched_poll_def answered_def)
  from a b c weekly_summary_sent_once [OF a b c, of utc_week_earlier wall_clock idle]
  show ?thesis by blast
qed

subsection \<open>Products without completed responses\<close>

text \<open>
  Claim C1 asks, for a product with an enabled recipient and no finished response, for
  one "no responses" send per enabled recipient and no other send. The handler pushes
  one send per recipient in its loop and then one more, addressed to the whole list of
  enabled members: on the small database with a poll shown three times and never
  finished, Alice is the only enabled recipient and the run starts two sends.
\<close>

theorem no_responses_sends_list_too:
  "teamMembersWithNotificationEnabled
       (fetched_acme [\<lparr>environment_id = ''e1'', surveys = [fetched_poll 0 3]\<rparr>]) = [alice]
   \<and> getProducts utc_week_earlier (wall_clock 0) [acme [weekly_poll 0 3]]
       = [fetched_acme [\<lparr>environment_id = ''e1'', surveys = [fetched_poll 0 3]\<rparr>]]
   \<and> POST (Some ''s3cret'') (Some ''s3cret'') utc_week_earlier wall_clock (\<lambda>e. False) [acme [weekly_poll 0 3]] =
       (successResponse,
        \<lparr>emailSendingPromises =
           [sendNoLiveSurveyNotificationEmail (ToAddress ''alice@example.com'')
              (fetched_acme [\<lparr>environment_id = ''e1'', surveys = [fetched_poll 0 3]\<rparr>]),
            sendNoLiveSurveyNotificationEmail (ToMembers [alice])
              (fetched_acme [\<lparr>environment_id = ''e1'', surveys = [fetched_poll 0 3]\<rparr>])],
         dates_created = 1, queries = 1\<rparr>)
   \<and> length (emailSendingPromises
        (snd (POST (Some ''s3cret'') (Some ''s3cret'') utc_week_earlier wall_clock (\<lambda>e. False)
                [acme [weekly_poll 0 3]]))) = 2"
  by (simp add: fetched_acme_recipients getProducts_acme POST_acme_no_responses)

subsection \<open>The payload of the weekly summary\<close>

text \<open>
  Claim C3 lists the product's name among the contents of the payload. The handler
  writes \<^verbatim>\<open>productName: product.name\<close>, but \<^verbatim>\<open>getProducts\<close> does not select the
  name, so the property reads \<^verbatim>\<open>undefined\<close>: on the small database, whose product
  is named Acme and whose poll holds one finished response, the payload carries the
  environment's id, the two dates, the survey data and the insights, and no product name.
\<close>

theorem summary_payload_lacks_product_name:
  "db_product_name (acme [weekly_poll (Suc 0) 2]) = ''Acme''
   \<and> POST (Some ''s3cret'') (Some ''s3cret'') utc_week_earlier wall_clock (\<lambda>e. False)
        [acme [weekly_poll (Suc 0) 2]] =
       (successResponse,
        \<lparr>emailSendingPromises =
           [sendWeeklySummaryNotificationEmail [alice]
              \<lparr>environmentId = ''e1'',
               currentDate = 1700000000002,
               lastWeekDate = 1699395200001,
               productName = None,
               nr_surveys =
                 [\<lparr>sd_id = None, sd_name = ''Weekly poll'',
                   sd_responses = [\<lparr>entry_headline = ''How was your week?'',
                                    answer = JSString ''Fine''\<rparr>]\<rparr>],
               nr_insights =
                 \<lparr>totalCompletedResponses = 1, totalDisplays = 2, totalResponses = 1,
                  completionRate = JSFinite 50, numLiveSurvey = 0\<rparr>\<rparr>],
         dates_created = 3, queries = 1\<rparr>)"
  by (simp add: POST_acme_summary) (simp add: acme_def acme_with_def)

subsection \<open>The record of a survey\<close>

lemma answer_cases:
  "or_null (property_read object key) =
     (case object key of
        Some x \<Rightarrow>
          if x = JSNull \<or> x = JSBoolean False \<or> x = JSNumber 0 \<or> x = JSString ''''
          then JSNull else x
      | None \<Rightarrow>
          if key \<in> set object_prototype_members then JSInherited key else JSNull)"
proof (cases "object key")
  case None
  then show ?thesis
    by (simp add: property_read_def or_null_def)
next
  case (Some x)
  then have "property_read object key = Some x"
    by (simp add: property_read_def)
  with Some show ?thesis
    by (simp add: or_null_cases)
qed

text \<open>
  Claim C4 says that an entry's answer is null exactly when the response's data has no
  value for the question. The handler writes \<^verbatim>\<open>response.data[question.id] || null\<close>,
  and \<^verbatim>\<open>||\<close> replaces every falsy value: the response that left the question blank
  stores the empty string for it, and its entry's answer is null.
\<close>

theorem blank_answer_becomes_null:
  "data left_blank (question_id q1) = Some (JSString '''')
   \<and> sd_responses (surveyData blank_poll)
       = [\<lparr>entry_headline = ''How was your week?'', answer = JSNull\<rparr>]"
  by (simp add: surveyData_def blank_poll_def left_blank_def q1_def or_null_def
      property_read_def)

text \<open>
  Claim C4, amended. The record of a survey holds one entry for each pair of a response
  and a question, response after response and, within a response, question after
  question: as many entries as responses times questions. An entry's headline is the
  question's headline. Its answer is the value the response's data holds for the
  question's id when there is one and it is truthy, and null when that value is falsy
  (null, false, 0 or the empty string). When the data holds no value for the id the answer
  is null, unless the id is the name of a member of \<^verbatim>\<open>Object.prototype\<close>
  (\<^verbatim>\<open>constructor\<close>, \<^verbatim>\<open>toString\<close> and the like): the property read then returns
  that inherited member, which is truthy, and the entry stores it.
\<close>

theorem survey_record_is_cross_product:
  "sd_responses (surveyData s) =
     concat (map (\<lambda>r. map (\<lambda>q.
         \<lparr>entry_headline = headline q,
          answer = (case data r (question_id q) of
                      Some x \<Rightarrow>
                        if x = JSNull \<or> x = JSBoolean False \<or> x = JSNumber 0
                           \<or> x = JSString ''''
                        then JSNull else x
                    | None \<Rightarrow>
                        if question_id q \<in> set object_prototype_members
                        then JSInherited (question_id q) else JSNull)\<rparr>)
       (questions s)) (responses s))
   \<and> length (sd_responses (surveyData s)) = length (responses s) * length (questions s)"
proof -
  have "sd_responses (surveyData s) = response_loop (questions s) (responses s) []"
    by (simp add: surveyData_def)
  moreover have "response_loop (questions s) (responses s) [] =
     concat (map (\<lambda>r. map (\<lambda>q.
         \<lparr>entry_headline = headline q,
          answer = or_null (property_read (data r) (question_id q))\<rparr>) (questions s))
       (responses s))"
    by (simp add: response_loop_concat)
  moreover have "length (response_loop (questions s) (responses s) [])
      = length (responses s) * length (questions s)"
    by (simp add: length_response_loop)
  ultimately show ?thesis
    by (simp add: answer_cases)
qed

theorem survey_record_is_cross_product_witness:
  "sd_responses (surveyData feedback_form) =
     [\<lparr>entry_headline = ''How was your week?'', answer = JSString ''Fine''\<rparr>,
      \<lparr>entry_headline = ''Anything else?'', answer = JSNull\<rparr>,
      \<lparr>entry_headline = ''Who built it?'', answer = JSInherited ''constructor''\<rparr>,
      \<lparr>entry_headline = ''How was your week?'', answer = JSNull\<rparr>,
      \<lparr>entry_headline = ''Anything else?'', answer = JSNull\<rparr>,
      \<lparr>entry_headline = ''Who built it?'', answer = JSInherited ''constructor''\<rparr>]
   \<and> length (sd_responses (surveyData feedback_form)) = 2 * 3"
  using survey_record_is_cross_product [of feedback_form]
  by (simp add: feedback_form_def answered_def left_blank_def q1_def q2_def q3_def
      object_prototype_members_def)

subsection \<open>The completion rate\<close>

text \<open>
  Claim C2 says that the completion rate after a survey is the rounded exact percentage
  \<open>round (100 * C / D)\<close> of the running totals. The handler computes
  \<^verbatim>\<open>Math.round((C / D) * 100)\<close> in double precision: for 23 finished responses on 40
  displays the exact percentage is 57.5, which rounds to 58, but the double quotient times
  100 is 57.49999999999999 and the handler stores 57.
\<close>

theorem half_percent_rounds_down:
  "(\<Sum>s\<leftarrow>[fetched_poll 23 40]. length (filter finished (responses s))) = 23
   \<and> (\<Sum>s\<leftarrow>[fetched_poll 23 40]. length (displays s)) = 40
   \<and> js_div 23 40 = (5179139571476070, - 53)
   \<and> js_mul100 (5179139571476070, - 53) = (8092405580431359, - 47)
   \<and> double_value (8092405580431359, - 47) < 115 / 2
   \<and> math_round (8092405580431359, - 47) = 57
   \<and> completionRate (snd (survey_loop [fetched_poll 23 40] ([], initial_insights))) = JSFinite 57
   \<and> round (100 * of_nat 23 / of_nat 40 :: rat) = 58"
proof -
  have "round (100 * of_nat 23 / of_nat 40 :: rat) = \<lfloor>(58 :: rat)\<rfloor>"
    by (simp add: round_def)
  then have exact: "round (100 * of_nat 23 / of_nat 40 :: rat) = 58"
    by simp
  have quotient: "js_div 23 40 = (5179139571476070, - 53)"
    by (simp add: double_defs)
  have product: "js_mul100 (5179139571476070, - 53) = (8092405580431359, - 47)"
    by (simp add: double_defs)
  have below: "double_value (8092405580431359, - 47) < 115 / 2"
    by (simp add: double_value_def power_int_def field_simps)
  have rounded: "math_round (8092405580431359, - 47) = 57"
    by (simp add: math_round_def)
  have stored: "completionRate (snd (survey_loop [fetched_poll 23 40] ([], initial_insights)))
      = JSFinite 57"
    by (simp add: fetched_poll_insights completion_rate_examples)
  have totals: "(\<Sum>s\<leftarrow>[fetched_poll 23 40]. length (filter finished (responses s))) = 23"
    "(\<Sum>s\<leftarrow>[fetched_poll 23 40]. length (displays s)) = 40"
    by (simp_all add: fetched_poll_def answered_def)
  from totals quotient product below rounded stored exact show ?thesis
    by (simp only: simp_thms)
qed

text \<open>
  Claim C2, amended. After the loop has folded in a non-empty run of surveys, the
  completion rate is \<^verbatim>\<open>Math.round((C / D) * 100)\<close> on the running totals \<open>C\<close> of
  finished responses and \<open>D\<close> of displays over all the surveys so far, in double
  precision, not an average of rates per survey. With \<open>D = 0\<close> it is \<^verbatim>\<open>NaN\<close> when
  \<open>C = 0\<close> and \<^verbatim>\<open>Infinity\<close> otherwise, never 0. With \<open>D > 0\<close> (and \<open>C\<close> below
  \<open>2 ^ 53 / 600\<close>) it is an integer within one half of the exact percentage
  \<open>100 * C / D\<close>, and it is \<open>round (100 * C / D)\<close> unless the exact percentage lies
  halfway between two integers, where the handler may store either neighbour.
\<close>

theorem completion_rate_of_running_totals:
  fixes ss :: "survey list"
  defines "C \<equiv> (\<Sum>s\<leftarrow>ss. length (filter finished (responses s)))"
    and "D \<equiv> (\<Sum>s\<leftarrow>ss. length (displays s))"
  assumes "ss \<noteq> []"
  shows "completionRate (snd (survey_loop ss ([], initial_insights))) = completion_rate C D
    \<and> (D = 0 \<and> C = 0
        \<longrightarrow> completionRate (snd (survey_loop ss ([], initial_insights))) = JSNaN)
    \<and> (D = 0 \<and> 0 < C
        \<longrightarrow> completionRate (snd (survey_loop ss ([], initial_insights))) = JSInfinity)
    \<and> (0 < D \<and> 600 * C < 2 ^ 53
        \<longrightarrow> (\<exists>R. completionRate (snd (survey_loop ss ([], initial_insights))) = JSFinite R
              \<and> \<bar>of_int R - (100 * of_nat C / of_nat D :: rat)\<bar> \<le> 1 / 2
              \<and> (frac (100 * of_nat C / of_nat D :: rat) \<noteq> 1 / 2
                   \<longrightarrow> R = round (100 * of_nat C / of_nat D :: rat))))"
proof -
  have rate: "completionRate (snd (survey_loop ss ([], initial_insights))) = completion_rate C D"
    using survey_loop_rate [OF assms(3), of "[]" initial_insights]
    by (simp add: initial_insights_def C_def D_def)
  have finite: "\<exists>R. completion_rate C D = JSFinite R
      \<and> \<bar>of_int R - (100 * of_nat C / of_nat D :: rat)\<bar> \<le> 1 / 2
      \<and> (frac (100 * of_nat C / of_nat D :: rat) \<noteq> 1 / 2
           \<longrightarrow> R = round (100 * of_nat C / of_nat D :: rat))"
    if D: "0 < D" and small: "600 * C < 2 ^ 53"
  proof (cases "C = 0")
    case True
    with D have "completion_rate C D = JSFinite 0"
      by (simp add: completion_rate_def)
    with True show ?thesis by simp
  next
    case False
    then have "0 < C" by simp
    from completion_rate_nearest [OF this D small]
    obtain R where R: "completion_rate C D = JSFinite R"
      "\<bar>of_int R - (100 * of_nat C / of_nat D :: rat)\<bar> \<le> 1 / 2"
      by blast
    from R(2) have "frac (100 * of_nat C / of_nat D :: rat) \<noteq> 1 / 2
        \<longrightarrow> R = round (100 * of_nat C / of_nat D :: rat)"
      using nearest_is_round by blast
    with R show ?thesis by blast
  qed
  show ?thesis
  proof (intro conjI impI)
    show "completionRate (snd (survey_loop ss ([], initial_insights))) = completion_rate C D"
      by (rule rate)
  next
    assume "D = 0 \<and> C = 0"
    then show "completionRate (snd (survey_loop ss ([], initial_insights))) = JSNaN"
      by (simp add: rate completion_rate_def)
  next
    assume "D = 0 \<and> 0 < C"
    then show "completionRate (snd (survey_loop ss ([], initial_insights))) = JSInfinity"
      by (simp add: rate completion_rate_def)
  next
    assume "0 < D \<and> 600 * C < 2 ^ 53"
    then show "\<exists>R. completionRate (snd (survey_loop ss ([], initial_insights))) = JSFinite R
        \<and> \<bar>of_int R - (100 * of_nat C / of_nat D :: rat)\<bar> \<le> 1 / 2
        \<and> (frac (100 * of_nat C / of_nat D :: rat) \<noteq> 1 / 2
             \<longrightarrow> R = round (100 * of_nat C / of_nat D :: rat))"
      using finite by (simp only: rate)
  qed
qed

theorem completion_rate_of_running_totals_witness:
  "completionRate (snd (survey_loop [fetched_poll 4 10] ([], initial_insights))) = JSFinite 40
   \<and> completionRate (snd (survey_loop [fetched_poll 4 10, fetched_poll 6 10]
         ([], initial_insights))) = JSFinite 50
   \<and> completionRate (snd (survey_loop [fetched_poll 0 0] ([], initial_insights))) = JSNaN
   \<and> completionRate (snd (survey_loop [fetched_poll 2 0] ([], initial_insights))) = JSInfinity"
proof -
  have whole: "frac (of_int z :: rat) \<noteq> 1 / 2" for z
    by simp
  have totals:
    "(\<Sum>s\<leftarrow>[fetched_poll 4 10]. length (filter finished (responses s))) = 4"
    "(\<Sum>s\<leftarrow>[fetched_poll 4 10]. length (displays s)) = 10"
    "(\<Sum>s\<leftarrow>[fetched_poll 4 10, fetched_poll 6 10]. length (filter finished (responses s))) = 10"
    "(\<Sum>s\<leftarrow>[fetched_poll 4 10, fetched_poll 6 10]. length (displays s)) = 20"
    "(\<Sum>s\<leftarrow>[fetched_poll 0 0]. length (filter finished (responses s))) = 0"
    "(\<Sum>s\<leftarrow>[fetched_poll 0 0]. length (displays s)) = 0"
    "(\<Sum>s\<leftarrow>[fetched_poll 2 0]. length (filter finished (responses s))) = 2"
    "(\<Sum>s\<leftarrow>[fetched_poll 2 0]. length (displays s)) = 0"
    by (simp_all add: fetched_poll_def answered_def)
  have one: "completionRate (snd (survey_loop [fetched_poll 4 10] ([], initial_insights)))
      = JSFinite 40"
  proof -
    have x: "(100 * of_nat 4 / of_nat 10 :: rat) = of_int 40" by simp
    have range: "0 < (10::nat) \<and> 600 * (4::nat) < 2 ^ 53" by simp
    have "[fetched_poll 4 10] \<noteq> []" by simp
    from completion_rate_of_running_totals [OF this, unfolded totals] range
    obtain R where "completionRate (snd (survey_loop [fetched_poll 4 10] ([], initial_insights)))
        = JSFinite R" and "frac (100 * of_nat 4 / of_nat 10 :: rat) \<noteq> 1 / 2
        \<longrightarrow> R = round (100 * of_nat 4 / of_nat 10 :: rat)"
      by blast
    then show ?thesis
      unfolding x using whole [of 40] by simp
  qed
  have two: "completionRate (snd (survey_loop [fetched_poll 4 10, fetched_poll 6 10]
      ([], initial_insights))) = JSFinite 50"
  proof -
    have x: "(100 * of_nat 10 / of_nat 20 :: rat) = of_int 50" by simp
    have range: "0 < (20::nat) \<and> 600 * (10::nat) < 2 ^ 53" by simp
    have "[fetched_poll 4 10, fetched_poll 6 10] \<noteq> []" by simp
    from completion_rate_of_running_totals [OF this, unfolded totals] range
    obtain R where "completionRate (snd (survey_loop [fetched_poll 4 10, fetched_poll 6 10]
        ([], initial_insights))) = JSFinite R" and "frac (100 * of_nat 10 / of_nat 20 :: rat) \<noteq> 1 / 2
        \<longrightarrow> R = round (100 * of_nat 10 / of_nat 20 :: rat)"
      by blast
    then show ?thesis
      unfolding x using whole [of 50] by simp
  qed
  have three: "completionRate (snd (survey_loop [fetched_poll 0 0] ([], initial_insights))) = JSNaN"
  proof -
    have "[fetched_poll 0 0] \<noteq> []" by simp
    from completion_rate_of_running_totals [OF this, unfolded totals]
    show ?thesis by blast
  qed
  have four: "completionRate (snd (survey_loop [fetched_poll 2 0] ([], initial_insights)))
      = JSInfinity"
  proof -
    have range: "(0::nat) = 0 \<and> 0 < (2::nat)" by simp
    have "[fetched_poll 2 0] \<noteq> []" by simp
    from completion_rate_of_running_totals [OF this, unfolded totals] range
    show ?thesis by blast
  qed
  from one two three four show ?thesis by (simp only: simp_thms)
qed

end
